theory Spec2Isabelle
  imports Complex_Main
begin

section \<open>Particles, constraints and the flag\<close>

text \<open>
  A particle of the cloth is a JavaScript object with three vectors. The vectors are
  only ever copied by the flag (\<^verbatim>\<open>position.copy(original)\<close>), so the vector type is
  left open as \<open>'v\<close>. Particles are shared between the cloth, the pin list and the
  constraints; they are therefore kept in a store that maps a particle reference
  \<open>'p\<close> to the particle's current fields.
\<close>

record 'v particle =
  position :: 'v
  previous :: 'v
  original :: 'v

type_synonym ('p, 'v) store = "'p \<Rightarrow> 'v particle"

text \<open>
  The fields of the cloth that the flag destructures:
  \<^verbatim>\<open>const { xSegments, ySegments, restDistance, particleAt } = this.cloth\<close>.
  The class \<^verbatim>\<open>Cloth\<close> itself is not among the sources; \<open>particleAt\<close> is the
  lookup function it provides.
\<close>

record ('p, 'r) cloth =
  xSegments :: nat
  ySegments :: nat
  restDistance :: 'r
  particleAt :: "nat \<Rightarrow> nat \<Rightarrow> 'p"

text \<open>\<^verbatim>\<open>new FixedConstraint(p1, p2, restDistance)\<close>: the three constructor arguments.\<close>

datatype ('p, 'r) constraint = FixedConstraint (p1: 'p) (p2: 'p) (rest: 'r)

record ('p, 'r) flag =
  cloth :: "('p, 'r) cloth"
  pins :: "'p list"
  lengthConstraints :: "('p, 'r) constraint list"

section \<open>\<^verbatim>\<open>Flag.simulate\<close>\<close>

text \<open>
  \<^verbatim>\<open>particle.previous.copy(particle.position.copy(particle.original))\<close>:
  the inner copy overwrites \<open>position\<close> with \<open>original\<close> and returns the position
  vector, which the outer copy writes into \<open>previous\<close>.
\<close>

definition pinParticle :: "'p \<Rightarrow> ('p, 'v) store \<Rightarrow> ('p, 'v) store" where
  "pinParticle p s =
     (let s1 = s(p := (s p)\<lparr>position := original (s p)\<rparr>)
      in s1(p := (s1 p)\<lparr>previous := position (s1 p)\<rparr>))"

text \<open>
  \<^verbatim>\<open>for (let i = 0, ii = pins.length; i < ii; i++) { const particle = pins[i]; ... }\<close>
\<close>

function pinLoop :: "'p list \<Rightarrow> nat \<Rightarrow> nat \<Rightarrow> ('p, 'v) store \<Rightarrow> ('p, 'v) store" where
  "pinLoop ps i ii s = (if i < ii then pinLoop ps (i + 1) ii (pinParticle (ps ! i) s) else s)"
  by pat_completeness auto
termination
  by (relation "measure (\<lambda>(ps, i, ii, s). ii - i)") auto

declare pinLoop.simps [simp del]

text \<open>
  \<^verbatim>\<open>for (let i = 0, ii = lengthConstraints.length; i < ii; i++) { lengthConstraints[i].resolve(); }\<close>
  The method \<^verbatim>\<open>FixedConstraint.resolve\<close> is not among the sources. It is a parameter
  \<open>resolve\<close> of the model: what resolving one constraint does to the store.
\<close>

function resolveLoop ::
  "(('p, 'r) constraint \<Rightarrow> ('p, 'v) store \<Rightarrow> ('p, 'v) store) \<Rightarrow> ('p, 'r) constraint list \<Rightarrow>
   nat \<Rightarrow> nat \<Rightarrow> ('p, 'v) store \<Rightarrow> ('p, 'v) store" where
  "resolveLoop resolve cs i ii s =
     (if i < ii then resolveLoop resolve cs (i + 1) ii (resolve (cs ! i) s) else s)"
  by pat_completeness auto
termination
  by (relation "measure (\<lambda>(resolve, cs, i, ii, s). ii - i)") auto

declare resolveLoop.simps [simp del]

text \<open>
  \<^verbatim>\<open>simulate(deltaTime)\<close>. The method \<^verbatim>\<open>Cloth.simulate\<close> is not among the
  sources either: \<open>clothSimulate\<close> is what it does to the store for a given cloth and
  time step.
\<close>

definition simulate ::
  "(('p, 'r) cloth \<Rightarrow> 't \<Rightarrow> ('p, 'v) store \<Rightarrow> ('p, 'v) store) \<Rightarrow>
   (('p, 'r) constraint \<Rightarrow> ('p, 'v) store \<Rightarrow> ('p, 'v) store) \<Rightarrow>
   ('p, 'r) flag \<Rightarrow> 't \<Rightarrow> ('p, 'v) store \<Rightarrow> ('p, 'v) store" where
  "simulate clothSimulate resolve f deltaTime s =
     (let s1 = clothSimulate (cloth f) deltaTime s;
          s2 = pinLoop (pins f) 0 (length (pins f)) s1
      in resolveLoop resolve (lengthConstraints f) 0 (length (lengthConstraints f)) s2)"

text \<open>
  The sequence in the words of the specification: first the cloth's own step, then every
  pin has position and previous set to original, then every length constraint is resolved
  in the stored order.
\<close>

definition forcePin :: "('p, 'v) store \<Rightarrow> 'p \<Rightarrow> ('p, 'v) store" where
  "forcePin s p = s(p := (s p)\<lparr>position := original (s p), previous := original (s p)\<rparr>)"

definition simulate_sequence ::
  "(('p, 'r) cloth \<Rightarrow> 't \<Rightarrow> ('p, 'v) store \<Rightarrow> ('p, 'v) store) \<Rightarrow>
   (('p, 'r) constraint \<Rightarrow> ('p, 'v) store \<Rightarrow> ('p, 'v) store) \<Rightarrow>
   ('p, 'r) flag \<Rightarrow> 't \<Rightarrow> ('p, 'v) store \<Rightarrow> ('p, 'v) store" where
  "simulate_sequence clothSimulate resolve f deltaTime s =
     foldl (\<lambda>s' c. resolve c s')
       (foldl forcePin (clothSimulate (cloth f) deltaTime s) (pins f))
       (lengthConstraints f)"



section \<open>JavaScript numbers\<close>

text \<open>
  A JavaScript number is an IEEE 754 double: a finite number (\<open>Fin 0\<close> is the positive
  zero), the negative zero, one of the two infinities, or NaN. A decimal literal of the
  source such as \<^verbatim>\<open>1.8\<close> is the double nearest to it, \<open>fl (18 / 10)\<close> below.
\<close>

datatype jsnum = Fin real | NZero | PInf | NInf | NaN

text \<open>
  Rounding a real number to the nearest double, ties to the even mantissa: the
  mantissa has 53 bits, the exponent of a normal number lies between \<open>- 1022\<close> and
  \<open>1023\<close>, below that the spacing stays \<open>2 ^ - 1074\<close>, and a result of \<open>2 ^ 1024\<close> or more
  is an infinity. A result of zero keeps the sign of the number that was rounded.
\<close>

definition pow2 :: "int \<Rightarrow> real" where
  "pow2 k = (if 0 \<le> k then 2 ^ nat k else 1 / 2 ^ nat (- k))"

definition roundHalfEven :: "real \<Rightarrow> int" where
  "roundHalfEven t =
     (let f = \<lfloor>t\<rfloor>
      in if t - of_int f < 1 / 2 then f
         else if 1 / 2 < t - of_int f then f + 1
         else if even f then f else f + 1)"

definition binExponent :: "real \<Rightarrow> int" where
  "binExponent x = \<lfloor>log 2 \<bar>x\<bar>\<rfloor>"

definition fl :: "real \<Rightarrow> jsnum" where
  "fl x =
     (let e = max (binExponent x) (- 1022);
          q = pow2 (e - 52);
          y = of_int (roundHalfEven (x / q)) * q
      in if pow2 1024 \<le> \<bar>y\<bar> then (if 0 < x then PInf else NInf)
         else if y = 0 then (if x < 0 then NZero else Fin 0)
         else Fin y)"

text \<open>The classes of a number, its sign bit, and the value of a finite number.\<close>

fun isNaN :: "jsnum \<Rightarrow> bool" where
  "isNaN NaN = True"
| "isNaN x = False"

fun isZero :: "jsnum \<Rightarrow> bool" where
  "isZero (Fin a) = (a = 0)"
| "isZero NZero = True"
| "isZero x = False"

fun isInf :: "jsnum \<Rightarrow> bool" where
  "isInf PInf = True"
| "isInf NInf = True"
| "isInf x = False"

fun negative :: "jsnum \<Rightarrow> bool" where
  "negative (Fin a) = (a < 0)"
| "negative NZero = True"
| "negative NInf = True"
| "negative x = False"

fun finiteValue :: "jsnum \<Rightarrow> real" where
  "finiteValue (Fin a) = a"
| "finiteValue x = 0"

definition signedZero :: "bool \<Rightarrow> jsnum" where
  "signedZero neg = (if neg then NZero else Fin 0)"

definition signedInf :: "bool \<Rightarrow> jsnum" where
  "signedInf neg = (if neg then NInf else PInf)"

text \<open>
  Division and multiplication of doubles: NaN for a NaN argument and for \<open>0 / 0\<close>,
  \<open>Infinity / Infinity\<close>, \<open>0 * Infinity\<close>; otherwise an infinity or a zero where an
  argument is one, with the sign that the two sign bits give; otherwise the exact
  result rounded to the nearest double.
\<close>

definition js_div :: "jsnum \<Rightarrow> jsnum \<Rightarrow> jsnum" where
  "js_div x y =
     (if isNaN x \<or> isNaN y then NaN
      else if (isZero x \<and> isZero y) \<or> (isInf x \<and> isInf y) then NaN
      else if isInf x \<or> isZero y then signedInf (negative x \<noteq> negative y)
      else if isZero x \<or> isInf y then signedZero (negative x \<noteq> negative y)
      else fl (finiteValue x / finiteValue y))"

definition js_mul :: "jsnum \<Rightarrow> jsnum \<Rightarrow> jsnum" where
  "js_mul x y =
     (if isNaN x \<or> isNaN y then NaN
      else if (isZero x \<and> isInf y) \<or> (isInf x \<and> isZero y) then NaN
      else if isInf x \<or> isInf y then signedInf (negative x \<noteq> negative y)
      else if isZero x \<or> isZero y then signedZero (negative x \<noteq> negative y)
      else fl (finiteValue x * finiteValue y))"

text \<open>
  \<^verbatim>\<open>Math.max\<close> and \<^verbatim>\<open>Math.min\<close>: NaN when an argument is NaN; the negative zero is
  below the positive zero.
\<close>

fun js_max :: "jsnum \<Rightarrow> jsnum \<Rightarrow> jsnum" where
  "js_max NaN y = NaN"
| "js_max x NaN = NaN"
| "js_max PInf y = PInf"
| "js_max x PInf = PInf"
| "js_max NInf y = y"
| "js_max x NInf = x"
| "js_max NZero NZero = NZero"
| "js_max NZero (Fin b) = (if b < 0 then NZero else Fin b)"
| "js_max (Fin a) NZero = (if a < 0 then NZero else Fin a)"
| "js_max (Fin a) (Fin b) = Fin (max a b)"

fun js_min :: "jsnum \<Rightarrow> jsnum \<Rightarrow> jsnum" where
  "js_min NaN y = NaN"
| "js_min x NaN = NaN"
| "js_min NInf y = NInf"
| "js_min x NInf = NInf"
| "js_min PInf y = y"
| "js_min x PInf = x"
| "js_min NZero NZero = NZero"
| "js_min NZero (Fin b) = (if b < 0 then Fin b else NZero)"
| "js_min (Fin a) NZero = (if a < 0 then Fin a else NZero)"
| "js_min (Fin a) (Fin b) = Fin (min a b)"

text \<open>
  \<^verbatim>\<open>Math.round\<close>: the nearest integer, a half rounded up; the negative zero for a
  number from \<open>- 0.5\<close> up to the negative zero; infinities and NaN stay.
\<close>

fun js_round :: "jsnum \<Rightarrow> jsnum" where
  "js_round (Fin a) = (if - 1 / 2 \<le> a \<and> a < 0 then NZero else Fin (of_int \<lfloor>a + 1 / 2\<rfloor>))"
| "js_round x = x"

text \<open>
  The comparisons \<^verbatim>\<open><\<close> and \<^verbatim>\<open><=\<close> on numbers: false when an argument is NaN; the
  two zeros are equal.
\<close>

fun js_less :: "jsnum \<Rightarrow> jsnum \<Rightarrow> bool" where
  "js_less NaN y = False"
| "js_less x NaN = False"
| "js_less x NInf = False"
| "js_less PInf y = False"
| "js_less NInf y = True"
| "js_less x PInf = True"
| "js_less x y = (finiteValue x < finiteValue y)"

fun js_less_eq :: "jsnum \<Rightarrow> jsnum \<Rightarrow> bool" where
  "js_less_eq NaN y = False"
| "js_less_eq x NaN = False"
| "js_less_eq NInf y = True"
| "js_less_eq x PInf = True"
| "js_less_eq PInf y = False"
| "js_less_eq x NInf = False"
| "js_less_eq x y = (finiteValue x \<le> finiteValue y)"

section \<open>Pinning: \<^verbatim>\<open>pin\<close>, \<^verbatim>\<open>Flag.pin\<close>, \<^verbatim>\<open>Flag.unpin\<close>\<close>

text \<open>
  An option value as the code inspects it: the string \<^verbatim>\<open>'auto'\<close>, a number, or
  anything else.
\<close>

datatype jsval = Auto | Num jsnum | Other

text \<open>
  Modelled from the spec: the helper \<^verbatim>\<open>isNumeric\<close> of \<^verbatim>\<open>utils/TypeUtils\<close> is not among
  the sources. It accepts the finite numbers and rejects the "non-numeric" and "invalid"
  values, here \<open>Auto\<close>, \<open>Other\<close>, NaN and the infinities (a value that \<^verbatim>\<open>isNumeric\<close>
  accepts stands in the model as the number it denotes).
\<close>

fun isNumeric :: "jsval \<Rightarrow> bool" where
  "isNumeric (Num (Fin r)) = True"
| "isNumeric (Num NZero) = True"
| "isNumeric v = False"

text \<open>
  Modelled from the spec: the module \<^verbatim>\<open>constants\<close> with \<^verbatim>\<open>Side.TOP\<close>, \<^verbatim>\<open>Side.LEFT\<close>,
  \<^verbatim>\<open>Side.BOTTOM\<close> and \<^verbatim>\<open>Side.RIGHT\<close> is not among the sources. The constants are the
  four edge selectors top, left, bottom, right, as four different strings.
\<close>

definition Side_TOP :: string where "Side_TOP = ''top''"
definition Side_LEFT :: string where "Side_LEFT = ''left''"
definition Side_BOTTOM :: string where "Side_BOTTOM = ''bottom''"
definition Side_RIGHT :: string where "Side_RIGHT = ''right''"

text \<open>
  \<^verbatim>\<open>function ensureValidSpacing(spacing)\<close>: \<^verbatim>\<open>Math.floor(spacing)\<close> when
  \<^verbatim>\<open>isNumeric(spacing) && spacing >= 1\<close>, else \<^verbatim>\<open>defaults.spacing\<close>, which is 1.
\<close>

fun ensureValidSpacing :: "jsval \<Rightarrow> nat" where
  "ensureValidSpacing (Num (Fin r)) = (if 1 \<le> r then nat \<lfloor>r\<rfloor> else 1)"
| "ensureValidSpacing v = 1"

text \<open>
  The four loops of \<^verbatim>\<open>pinEdge\<close> have one shape,
  \<^verbatim>\<open>for (let i = 0; i <= n; i += spacing) { pins.push(sel(i)); }\<close>,
  with \<open>n\<close> the segment count along the edge and \<open>sel i\<close> the particle at step \<open>i\<close>.
  With \<open>spacing = 0\<close> the loop would never end, so the loop is a partial function and
  \<open>None\<close> stands for a loop that does not return.
\<close>

partial_function (option) edgeLoop ::
  "(nat \<Rightarrow> 'p) \<Rightarrow> nat \<Rightarrow> nat \<Rightarrow> nat \<Rightarrow> 'p list \<Rightarrow> 'p list option" where
  "edgeLoop sel n spacing i ps =
     (if i \<le> n then edgeLoop sel n spacing (i + spacing) (ps @ [sel i]) else Some ps)"

text \<open>\<^verbatim>\<open>function pinEdge(cloth, pins, edge, options)\<close>, with \<^verbatim>\<open>options.spacing\<close> as \<open>spacing\<close>.\<close>

definition pinEdge :: "('p, 'r) cloth \<Rightarrow> 'p list \<Rightarrow> string \<Rightarrow> nat \<Rightarrow> 'p list option" where
  "pinEdge c ps edge spacing =
     (if edge = Side_TOP then
        edgeLoop (\<lambda>i. particleAt c i (ySegments c)) (xSegments c) spacing 0 ps
      else if edge = Side_LEFT then
        edgeLoop (\<lambda>i. particleAt c 0 i) (ySegments c) spacing 0 ps
      else if edge = Side_BOTTOM then
        edgeLoop (\<lambda>i. particleAt c i 0) (xSegments c) spacing 0 ps
      else if edge = Side_RIGHT then
        edgeLoop (\<lambda>i. particleAt c (xSegments c) i) (ySegments c) spacing 0 ps
      else Some ps)"

text \<open>
  The value of the option \<^verbatim>\<open>edges\<close>: a string, an array, or anything else (for which
  both tests of \<^verbatim>\<open>pin\<close> fail). An element of the array that is not a string compares
  unequal to every \<^verbatim>\<open>Side\<close> constant, as an unknown string does.
\<close>

datatype edges_val = EdgeString string | EdgeArray "string list" | EdgeOther

text \<open>The options object of \<^verbatim>\<open>pin\<close>; \<open>None\<close> is a key that is absent (or no object at all).\<close>

record pin_options =
  edges :: "edges_val option"
  spacing :: "jsval option"

text \<open>
  \<^verbatim>\<open>for (let i = 0, ii = edges.length; i < ii; i++) { pinEdge(cloth, pins, edges[i], settings); }\<close>
\<close>

function pinEdges ::
  "('p, 'r) cloth \<Rightarrow> string list \<Rightarrow> nat \<Rightarrow> nat \<Rightarrow> nat \<Rightarrow> 'p list \<Rightarrow> 'p list option" where
  "pinEdges c es sp i ii ps =
     (if i < ii then
        (case pinEdge c ps (es ! i) sp of
           None \<Rightarrow> None
         | Some ps' \<Rightarrow> pinEdges c es sp (i + 1) ii ps')
      else Some ps)"
  by pat_completeness auto
termination
  by (relation "measure (\<lambda>(c, es, sp, i, ii, ps). ii - i)") auto

declare pinEdges.simps [simp del]

text \<open>
  \<^verbatim>\<open>function pin(cloth, pins, options)\<close>, with the defaults
  \<^verbatim>\<open>{ edges: [], spacing: 1 }\<close>. The source pushes onto the list \<^verbatim>\<open>pins\<close> in place;
  the model takes the list as \<open>ps\<close> and returns the new list.
\<close>

definition pin :: "('p, 'r) cloth \<Rightarrow> 'p list \<Rightarrow> pin_options \<Rightarrow> 'p list option" where
  "pin c ps options =
     (let settings_edges = (case edges options of None \<Rightarrow> EdgeArray [] | Some e \<Rightarrow> e);
          settings_spacing =
            ensureValidSpacing (case spacing options of None \<Rightarrow> Num (Fin 1) | Some v \<Rightarrow> v)
      in case settings_edges of
           EdgeString e \<Rightarrow> pinEdge c ps e settings_spacing
         | EdgeArray es \<Rightarrow>
             (if es \<noteq> [] then pinEdges c es settings_spacing 0 (length es) ps else Some ps)
         | EdgeOther \<Rightarrow> Some ps)"

text \<open>\<^verbatim>\<open>Flag.pin(options)\<close> is \<^verbatim>\<open>pin(this.cloth, this.pins, options)\<close>.\<close>

definition Flag_pin :: "('p, 'r) flag \<Rightarrow> pin_options \<Rightarrow> ('p, 'r) flag option" where
  "Flag_pin f options =
     (case pin (cloth f) (pins f) options of None \<Rightarrow> None | Some ps \<Rightarrow> Some (f\<lparr>pins := ps\<rparr>))"

text \<open>\<^verbatim>\<open>Flag.unpin()\<close> is \<^verbatim>\<open>this.pins = []\<close>.\<close>

definition Flag_unpin :: "('p, 'r) flag \<Rightarrow> ('p, 'r) flag" where
  "Flag_unpin f = f\<lparr>pins := []\<rparr>"

section \<open>\<^verbatim>\<open>Flag.setLengthConstraints\<close>\<close>

text \<open>
  The horizontal constraints:
  \<^verbatim>\<open>for (let v = 0; v <= ySegments; v++) { for (let u = 0; u < xSegments; u++) { push } }\<close>
\<close>

function leftInner ::
  "('p, 'r) cloth \<Rightarrow> nat \<Rightarrow> nat \<Rightarrow> ('p, 'r) constraint list \<Rightarrow> ('p, 'r) constraint list" where
  "leftInner c v u lc =
     (if u < xSegments c then
        leftInner c v (u + 1)
          (lc @ [FixedConstraint (particleAt c u v) (particleAt c (u + 1) v) (restDistance c)])
      else lc)"
  by pat_completeness auto
termination
  by (relation "measure (\<lambda>(c, v, u, lc). xSegments c - u)") auto

declare leftInner.simps [simp del]

function leftOuter ::
  "('p, 'r) cloth \<Rightarrow> nat \<Rightarrow> ('p, 'r) constraint list \<Rightarrow> ('p, 'r) constraint list" where
  "leftOuter c v lc =
     (if v \<le> ySegments c then leftOuter c (v + 1) (leftInner c v 0 lc) else lc)"
  by pat_completeness auto
termination
  by (relation "measure (\<lambda>(c, v, lc). ySegments c + 1 - v)") auto

declare leftOuter.simps [simp del]

text \<open>
  The vertical constraints:
  \<^verbatim>\<open>for (let u = 0; u <= xSegments; u++) { for (let v = ySegments; v > 0; v--) { push } }\<close>
\<close>

function topInner ::
  "('p, 'r) cloth \<Rightarrow> nat \<Rightarrow> nat \<Rightarrow> ('p, 'r) constraint list \<Rightarrow> ('p, 'r) constraint list" where
  "topInner c u v lc =
     (if v > 0 then
        topInner c u (v - 1)
          (lc @ [FixedConstraint (particleAt c u v) (particleAt c u (v - 1)) (restDistance c)])
      else lc)"
  by pat_completeness auto
termination
  by (relation "measure (\<lambda>(c, u, v, lc). v)") auto

declare topInner.simps [simp del]

function topOuter ::
  "('p, 'r) cloth \<Rightarrow> nat \<Rightarrow> ('p, 'r) constraint list \<Rightarrow> ('p, 'r) constraint list" where
  "topOuter c u lc =
     (if u \<le> xSegments c then topOuter c (u + 1) (topInner c u (ySegments c) lc) else lc)"
  by pat_completeness auto
termination
  by (relation "measure (\<lambda>(c, u, lc). xSegments c + 1 - u)") auto

declare topOuter.simps [simp del]

text \<open>\<^verbatim>\<open>setLengthConstraints(hoistwardSide)\<close>\<close>

definition setLengthConstraints :: "('p, 'r) flag \<Rightarrow> string \<Rightarrow> ('p, 'r) flag" where
  "setLengthConstraints f hoistwardSide =
     f\<lparr>lengthConstraints :=
         (if hoistwardSide = Side_LEFT then leftOuter (cloth f) 0 []
          else if hoistwardSide = Side_TOP then topOuter (cloth f) 0 []
          else [])\<rparr>"

section \<open>What a call of \<^verbatim>\<open>pin\<close> selects\<close>

text \<open>
  The steps \<open>0, spacing, 2 * spacing, ...\<close> along an edge of \<open>n\<close> segments: the indices
  from \<open>0\<close> to \<open>n\<close> that are multiples of the spacing, in increasing order.
\<close>

definition everyNth :: "nat \<Rightarrow> nat \<Rightarrow> nat list" where
  "everyNth n sp = [j \<leftarrow> [0..<Suc n]. sp dvd j]"

text \<open>The particles of one edge value, every \<open>sp\<close>-th one; none for an unknown edge value.\<close>

definition edgeParticles :: "('p, 'r) cloth \<Rightarrow> string \<Rightarrow> nat \<Rightarrow> 'p list" where
  "edgeParticles c e sp =
     (if e = Side_TOP then map (\<lambda>i. particleAt c i (ySegments c)) (everyNth (xSegments c) sp)
      else if e = Side_LEFT then map (\<lambda>i. particleAt c 0 i) (everyNth (ySegments c) sp)
      else if e = Side_BOTTOM then map (\<lambda>i. particleAt c i 0) (everyNth (xSegments c) sp)
      else if e = Side_RIGHT then map (\<lambda>i. particleAt c (xSegments c) i) (everyNth (ySegments c) sp)
      else [])"

definition recognized :: "string \<Rightarrow> bool" where
  "recognized e = (e = Side_TOP \<or> e = Side_LEFT \<or> e = Side_BOTTOM \<or> e = Side_RIGHT)"

text \<open>The spacing and the edge values that a call of \<^verbatim>\<open>pin\<close> works with.\<close>

definition effectiveSpacing :: "pin_options \<Rightarrow> nat" where
  "effectiveSpacing options =
     ensureValidSpacing (case spacing options of None \<Rightarrow> Num (Fin 1) | Some v \<Rightarrow> v)"

definition edgeList :: "pin_options \<Rightarrow> string list" where
  "edgeList options =
     (case edges options of
        Some (EdgeString e) \<Rightarrow> [e]
      | Some (EdgeArray es) \<Rightarrow> es
      | _ \<Rightarrow> [])"

definition selected :: "('p, 'r) cloth \<Rightarrow> pin_options \<Rightarrow> 'p list" where
  "selected c options =
     concat (map (\<lambda>e. edgeParticles c e (effectiveSpacing options)) (edgeList options))"

text \<open>A sequence of calls of \<^verbatim>\<open>Flag.pin\<close>, one after the other.\<close>

fun Flag_pins :: "('p, 'r) flag \<Rightarrow> pin_options list \<Rightarrow> ('p, 'r) flag option" where
  "Flag_pins f [] = Some f"
| "Flag_pins f (options # calls) =
     (case Flag_pin f options of None \<Rightarrow> None | Some f' \<Rightarrow> Flag_pins f' calls)"

text \<open>
  A cloth of one segment by one segment whose particles are named by their grid
  coordinates, for the concrete instances below.
\<close>

definition unitGrid :: "(nat \<times> nat, real) cloth" where
  "unitGrid = \<lparr>xSegments = 1, ySegments = 1, restDistance = 1, particleAt = Pair\<rparr>"

text \<open>A cloth of five segments by two, named the same way.\<close>

definition grid5x2 :: "(nat \<times> nat, real) cloth" where
  "grid5x2 = \<lparr>xSegments = 5, ySegments = 2, restDistance = 1, particleAt = Pair\<rparr>"

section \<open>The order of the length constraints\<close>

text \<open>
  For a flag hoisted on the left: row by row, and within a row from the hoist to the
  fly, the pairs of horizontal neighbours. For a flag hoisted at the top: column by
  column, and within a column from the top (\<open>v = ySegments\<close>) down, the pairs of
  vertical neighbours. The target length is the rest distance of the cloth.
\<close>

definition hoistToFlyRow :: "('p, 'r) cloth \<Rightarrow> nat \<Rightarrow> ('p, 'r) constraint list" where
  "hoistToFlyRow c v =
     map (\<lambda>u. FixedConstraint (particleAt c u v) (particleAt c (u + 1) v) (restDistance c))
       [0..<xSegments c]"

definition hoistToFly :: "('p, 'r) cloth \<Rightarrow> ('p, 'r) constraint list" where
  "hoistToFly c = concat (map (hoistToFlyRow c) [0..<Suc (ySegments c)])"

definition topToBottomColumn :: "('p, 'r) cloth \<Rightarrow> nat \<Rightarrow> ('p, 'r) constraint list" where
  "topToBottomColumn c u =
     map (\<lambda>v. FixedConstraint (particleAt c u v) (particleAt c u (v - 1)) (restDistance c))
       (rev [1..<Suc (ySegments c)])"

definition topToBottom :: "('p, 'r) cloth \<Rightarrow> ('p, 'r) constraint list" where
  "topToBottom c = concat (map (topToBottomColumn c) [0..<Suc (xSegments c)])"

definition flag5x2 :: "(nat \<times> nat, real) flag" where
  "flag5x2 = \<lparr>cloth = grid5x2, pins = [], lengthConstraints = []\<rparr>"

section \<open>Building the cloth: \<^verbatim>\<open>buildCloth\<close> and \<^verbatim>\<open>buildRectangularFlagFromMedia\<close>\<close>

text \<open>
  \<^verbatim>\<open>new Cloth(xSegments, ySegments, restDistance, mass)\<close>: the four arguments that
  \<^verbatim>\<open>buildCloth\<close> passes to the constructor of the class \<^verbatim>\<open>Cloth\<close>.
\<close>

datatype cloth_call =
  Cloth (argXSegments: jsnum) (argYSegments: jsnum) (argRestDistance: jsnum) (argMass: jsnum)

text \<open>
  The settings of the \<^verbatim>\<open>Flag\<close> constructor that \<^verbatim>\<open>buildCloth\<close> destructures,
  \<^verbatim>\<open>const { width, height, mass, restDistance } = options\<close>, as numbers.
\<close>

record flag_settings =
  flagWidth :: jsnum
  flagHeight :: jsnum
  flagMass :: jsnum
  flagRestDistance :: jsnum

definition buildCloth :: "flag_settings \<Rightarrow> cloth_call" where
  "buildCloth options =
     Cloth
       (js_max (Fin 1) (js_round (js_div (flagWidth options) (flagRestDistance options))))
       (js_max (Fin 1) (js_round (js_div (flagHeight options) (flagRestDistance options))))
       (flagRestDistance options)
       (js_mul (js_mul (flagMass options) (flagWidth options)) (flagHeight options))"

text \<open>
  \<^verbatim>\<open>Flag.defaults\<close>: width 1.8, height 1.2, mass 0.11, restDistance \<^verbatim>\<open>1.2 / 10\<close>.
  A decimal literal is the double nearest to it.
\<close>

definition Flag_defaults :: flag_settings where
  "Flag_defaults =
     \<lparr>flagWidth = fl (18 / 10), flagHeight = fl (12 / 10), flagMass = fl (11 / 100),
      flagRestDistance = js_div (fl (12 / 10)) (Fin 10)\<rparr>"

text \<open>
  Modelled from the spec: \<^verbatim>\<open>Hoisting.DEXTER\<close> and \<^verbatim>\<open>Hoisting.SINISTER\<close> of the module
  \<^verbatim>\<open>constants\<close>, which is not among the sources, are the two values of the hoisting
  option (the surface as it is, or mirrored), as two different strings.
\<close>

definition Hoisting_DEXTER :: string where "Hoisting_DEXTER = ''dexter''"
definition Hoisting_SINISTER :: string where "Hoisting_SINISTER = ''sinister''"

text \<open>
  The options object given to \<^verbatim>\<open>buildRectangularFlagFromMedia\<close>; \<open>None\<close> is an absent
  key. Mass and rest distance are not read by the helper but handed on to the
  \<^verbatim>\<open>Flag\<close> constructor.
\<close>

record media_options =
  optWidth :: "jsval option"
  optHeight :: "jsval option"
  optHoisting :: "string option"
  optOrientation :: "string option"
  optMass :: "jsnum option"
  optRestDistance :: "jsnum option"

text \<open>
  \<^verbatim>\<open>Object.assign({}, defaults, options)\<close> with the defaults \<^verbatim>\<open>width: 'auto'\<close>,
  \<^verbatim>\<open>height: 'auto'\<close>, \<^verbatim>\<open>hoisting: Hoisting.DEXTER\<close>, \<^verbatim>\<open>orientation: Side.TOP\<close>.
  The type \<open>'w\<close> of width and height is \<open>jsval\<close> before \<^verbatim>\<open>computeSize\<close> and \<open>jsnum\<close>
  after it.
\<close>

record 'w settings =
  width :: 'w
  height :: 'w
  hoisting :: string
  orientation :: string
  massOption :: "jsnum option"
  restDistanceOption :: "jsnum option"

definition assignDefaults :: "media_options \<Rightarrow> jsval settings" where
  "assignDefaults options =
     \<lparr>width = (case optWidth options of None \<Rightarrow> Auto | Some w \<Rightarrow> w),
      height = (case optHeight options of None \<Rightarrow> Auto | Some h \<Rightarrow> h),
      hoisting = (case optHoisting options of None \<Rightarrow> Hoisting_DEXTER | Some h \<Rightarrow> h),
      orientation = (case optOrientation options of None \<Rightarrow> Side_TOP | Some s \<Rightarrow> s),
      massOption = optMass options,
      restDistanceOption = optRestDistance options\<rparr>"

text \<open>
  The media element: \<^verbatim>\<open>width\<close>, \<^verbatim>\<open>height\<close>, \<^verbatim>\<open>videoWidth\<close>, \<^verbatim>\<open>videoHeight\<close>, each a
  number or undefined (\<open>None\<close>).
\<close>

record element =
  elWidth :: "jsnum option"
  elHeight :: "jsnum option"
  videoWidth :: "jsnum option"
  videoHeight :: "jsnum option"

text \<open>\<^verbatim>\<open>a || b\<close> on such values: \<open>a\<close> unless it is undefined, a zero or NaN.\<close>

fun js_or :: "jsnum option \<Rightarrow> jsnum option \<Rightarrow> jsnum option" where
  "js_or None b = b"
| "js_or (Some NaN) b = b"
| "js_or (Some NZero) b = b"
| "js_or (Some (Fin a)) b = (if a = 0 then b else Some (Fin a))"
| "js_or a b = a"

text \<open>The number that arithmetic takes a value for: NaN for undefined and non-numbers.\<close>

fun optNumber :: "jsnum option \<Rightarrow> jsnum" where
  "optNumber None = NaN"
| "optNumber (Some x) = x"

fun toNumber :: "jsval \<Rightarrow> jsnum" where
  "toNumber (Num x) = x"
| "toNumber v = NaN"

text \<open>\<^verbatim>\<open>function computeSizeFromElement(element, options)\<close>\<close>

definition computeSizeFromElement :: "element \<Rightarrow> jsval settings \<Rightarrow> jsval \<times> jsval" where
  "computeSizeFromElement el options =
     (let elementWidth = optNumber (js_or (elWidth el) (videoWidth el));
          elementHeight = optNumber (js_or (elHeight el) (videoHeight el))
      in if width options = Auto \<and> height options = Auto then
           (let crossWidth = flagHeight Flag_defaults
            in if js_less elementWidth elementHeight then
                 (Num crossWidth, Num (js_div (js_mul crossWidth elementHeight) elementWidth))
               else
                 (Num (js_div (js_mul crossWidth elementWidth) elementHeight), Num crossWidth))
         else if width options = Auto \<and> isNumeric (height options) then
           (Num (js_div (js_mul (toNumber (height options)) elementWidth) elementHeight),
            height options)
         else if isNumeric (width options) \<and> height options = Auto then
           (width options,
            Num (js_div (js_mul (toNumber (width options)) elementHeight) elementWidth))
         else (width options, height options))"

text \<open>\<^verbatim>\<open>const maxSize = 500\<close> and \<^verbatim>\<open>function computeSize(element, options)\<close>\<close>

definition maxSize :: jsnum where
  "maxSize = Fin 500"

definition computeSize :: "element option \<Rightarrow> jsval settings \<Rightarrow> jsnum \<times> jsnum" where
  "computeSize element options =
     (let (w, h) = (case element of
                      Some el \<Rightarrow> computeSizeFromElement el options
                    | None \<Rightarrow> (width options, height options))
      in if isNumeric w \<and> isNumeric h then
           (let scale = js_min (Fin 1) (js_div maxSize (js_max (toNumber w) (toNumber h)))
            in (js_mul (toNumber w) scale, js_mul (toNumber h) scale))
         else (flagWidth Flag_defaults, flagHeight Flag_defaults))"

text \<open>\<^verbatim>\<open>function isVertical(options)\<close>\<close>

definition isVertical :: "'w settings \<Rightarrow> bool" where
  "isVertical options = (orientation options = Side_LEFT \<or> orientation options = Side_RIGHT)"

text \<open>
  \<^verbatim>\<open>function computeTextureArgs(options)\<close>. The function \<^verbatim>\<open>getAngleOfSide\<close> is not
  among the sources; the angle is kept as the side it is the angle of.
\<close>

datatype angle = AngleOfSide string

record texture_args =
  reflect :: bool
  rotate :: angle

definition computeTextureArgs :: "'w settings \<Rightarrow> texture_args" where
  "computeTextureArgs options =
     \<lparr>reflect = (hoisting options = Hoisting_SINISTER),
      rotate = AngleOfSide (orientation options)\<rparr>"

text \<open>
  \<^verbatim>\<open>function computeFlagArgs(element, options)\<close>. The texture made by
  \<^verbatim>\<open>createTextureFromElement\<close> stands in the model as the transform it is made with.
\<close>

record flag_args =
  args :: "jsnum settings"
  texture :: "texture_args option"

definition computeFlagArgs :: "element option \<Rightarrow> jsnum settings \<Rightarrow> flag_args" where
  "computeFlagArgs element options =
     \<lparr>args = (if isVertical options
              then options\<lparr>width := height options, height := width options\<rparr>
              else options),
      texture = (case element of
                   Some el \<Rightarrow> Some (computeTextureArgs options)
                 | None \<Rightarrow> None)\<rparr>"

text \<open>
  The part of \<^verbatim>\<open>new Flag(args)\<close> that builds the cloth:
  \<^verbatim>\<open>Object.assign({}, Flag.defaults, options)\<close> and \<^verbatim>\<open>buildCloth(settings)\<close>.
\<close>

definition Flag_settings :: "jsnum settings \<Rightarrow> flag_settings" where
  "Flag_settings options =
     \<lparr>flagWidth = width options,
      flagHeight = height options,
      flagMass = (case massOption options of None \<Rightarrow> flagMass Flag_defaults | Some m \<Rightarrow> m),
      flagRestDistance =
        (case restDistanceOption options of
           None \<Rightarrow> flagRestDistance Flag_defaults
         | Some r \<Rightarrow> r)\<rparr>"

text \<open>
  \<^verbatim>\<open>buildRectangularFlagFromMedia(element, options)\<close>: what the flag is built from, the
  cloth and the texture transform. The class \<^verbatim>\<open>VideoFlag\<close> is not among the sources;
  the model builds the cloth of a video flag as \<^verbatim>\<open>Flag\<close> does.
\<close>

record built_flag =
  builtCloth :: cloth_call
  builtTexture :: "texture_args option"

definition buildRectangularFlagFromMedia :: "element option \<Rightarrow> media_options \<Rightarrow> built_flag" where
  "buildRectangularFlagFromMedia element options =
     (let settings = assignDefaults options;
          (w, h) = computeSize element settings;
          sized = \<lparr>width = w, height = h, hoisting = hoisting settings,
                   orientation = orientation settings, massOption = massOption settings,
                   restDistanceOption = restDistanceOption settings\<rparr>;
          fa = computeFlagArgs element sized
      in \<lparr>builtCloth = buildCloth (Flag_settings (args fa)), builtTexture = texture fa\<rparr>)"

section \<open>Concrete instances\<close>





text \<open>An image of 300 by 200 pixels, and a call without options.\<close>

definition image300x200 :: element where
  "image300x200 =
     \<lparr>elWidth = Some (Fin 300), elHeight = Some (Fin 200), videoWidth = None, videoHeight = None\<rparr>"

definition noOptions :: media_options where
  "noOptions =
     \<lparr>optWidth = None, optHeight = None, optHoisting = None, optOrientation = None,
      optMass = None, optRestDistance = None\<rparr>"

text \<open>The cloth of the flag that the helper builds.\<close>

definition clothOf :: "element option \<Rightarrow> media_options \<Rightarrow> cloth_call" where
  "clothOf el options = builtCloth (buildRectangularFlagFromMedia el options)"

section \<open>Properties of \<^verbatim>\<open>Flag.simulate\<close>\<close>

lemma pinParticle_forcePin: "pinParticle p s = forcePin s p"
  by (simp add: pinParticle_def forcePin_def Let_def fun_eq_iff)

lemma pinLoop_drop:
  "ii = length ps \<Longrightarrow> i \<le> ii \<Longrightarrow> pinLoop ps i ii s = foldl forcePin s (drop i ps)"
proof (induction ps i ii s rule: pinLoop.induct)
  case (1 ps i ii s)
  show ?case
  proof (cases "i < ii")
    case True
    with "1.prems" have d: "drop i ps = ps ! i # drop (i + 1) ps"
      by (simp add: Cons_nth_drop_Suc)
    from True "1.prems" have "pinLoop ps (i + 1) ii (pinParticle (ps ! i) s)
        = foldl forcePin (pinParticle (ps ! i) s) (drop (i + 1) ps)"
      by (intro "1.IH") simp_all
    with True d show ?thesis
      by (subst pinLoop.simps) (simp add: pinParticle_forcePin)
  next
    case False
    with "1.prems" show ?thesis by (subst pinLoop.simps) simp
  qed
qed

lemma resolveLoop_drop:
  "ii = length cs \<Longrightarrow> i \<le> ii \<Longrightarrow>
   resolveLoop resolve cs i ii s = foldl (\<lambda>s' c. resolve c s') s (drop i cs)"
proof (induction resolve cs i ii s rule: resolveLoop.induct)
  case (1 resolve cs i ii s)
  show ?case
  proof (cases "i < ii")
    case True
    with "1.prems" have d: "drop i cs = cs ! i # drop (i + 1) cs"
      by (simp add: Cons_nth_drop_Suc)
    from True "1.prems" have "resolveLoop resolve cs (i + 1) ii (resolve (cs ! i) s)
        = foldl (\<lambda>s' c. resolve c s') (resolve (cs ! i) s) (drop (i + 1) cs)"
      by (intro "1.IH") simp_all
    with True d show ?thesis by (subst resolveLoop.simps) simp
  next
    case False
    with "1.prems" show ?thesis by (subst resolveLoop.simps) simp
  qed
qed

lemma simulate_unfold:
  "simulate clothSimulate resolve f dt s =
     foldl (\<lambda>s' c. resolve c s')
       (foldl forcePin (clothSimulate (cloth f) dt s) (pins f)) (lengthConstraints f)"
  by (simp add: simulate_def Let_def pinLoop_drop resolveLoop_drop)

text \<open>
  Claim C2. Every call of \<^verbatim>\<open>Flag.simulate(dt)\<close> is exactly this sequence: the cloth's
  own \<^verbatim>\<open>simulate\<close> first, then for every pin position and previous are set to the
  particle's original, then every constraint of \<open>lengthConstraints\<close> is resolved in the
  order in which the list stores them.
\<close>

theorem simulate_is_sequence:
  "simulate clothSimulate resolve f dt s = simulate_sequence clothSimulate resolve f dt s"
  by (simp add: simulate_unfold simulate_sequence_def)

section \<open>Properties of pinning\<close>

lemma ensureValidSpacing_pos: "0 < ensureValidSpacing v"
proof (cases v)
  case (Num x)
  then show ?thesis by (cases x) (auto simp: zero_less_nat_eq)
qed simp_all

lemma steps_from_rec:
  assumes "0 < sp" "i \<le> n"
  shows "[j \<leftarrow> [i..<Suc n]. sp dvd (j - i)] = i # [j \<leftarrow> [i + sp..<Suc n]. sp dvd (j - (i + sp))]"
proof -
  have a: "[i..<Suc n] = i # [Suc i..<Suc n]"
    using assms by (simp add: upt_conv_Cons)
  have b: "[j \<leftarrow> [Suc i..<Suc n]. sp dvd (j - i)] = [j \<leftarrow> [i + sp..<Suc n]. sp dvd (j - (i + sp))]"
  proof (cases "i + sp \<le> Suc n")
    case True
    then have "[Suc i..<Suc n] = [Suc i..<i + sp] @ [i + sp..<Suc n]"
      using assms upt_add_eq_append[of "Suc i" "i + sp" "Suc n - (i + sp)"] by simp
    moreover have "[j \<leftarrow> [Suc i..<i + sp]. sp dvd (j - i)] = []"
      by (auto simp: filter_empty_conv dest!: dvd_imp_le)
    moreover have "[j \<leftarrow> [i + sp..<Suc n]. sp dvd (j - i)] = [j \<leftarrow> [i + sp..<Suc n]. sp dvd (j - (i + sp))]"
    proof (rule filter_cong[OF refl])
      fix j assume "j \<in> set [i + sp..<Suc n]"
      then have "j - i = (j - (i + sp)) + sp" by auto
      then show "(sp dvd (j - i)) = (sp dvd (j - (i + sp)))" by simp
    qed
    ultimately show ?thesis by simp
  next
    case False
    then have "[i + sp..<Suc n] = []" by simp
    moreover have "[j \<leftarrow> [Suc i..<Suc n]. sp dvd (j - i)] = []"
      using False by (auto simp: filter_empty_conv dest!: dvd_imp_le)
    ultimately show ?thesis by simp
  qed
  show ?thesis by (simp add: a b del: upt_Suc)
qed

lemma edgeLoop_steps:
  "0 < sp \<Longrightarrow> edgeLoop sel n sp i ps = Some (ps @ map sel [j \<leftarrow> [i..<Suc n]. sp dvd (j - i)])"
proof (induction "Suc n - i" arbitrary: i ps rule: less_induct)
  case less
  show ?case
  proof (cases "i \<le> n")
    case True
    with less.prems have "Suc n - (i + sp) < Suc n - i" by simp
    then have "edgeLoop sel n sp (i + sp) (ps @ [sel i])
        = Some ((ps @ [sel i]) @ map sel [j \<leftarrow> [i + sp..<Suc n]. sp dvd (j - (i + sp))])"
      using less.prems by (rule less.hyps)
    with True less.prems show ?thesis
      by (subst edgeLoop.simps) (simp add: steps_from_rec del: upt_Suc)
  next
    case False
    then show ?thesis by (subst edgeLoop.simps) (simp del: upt_Suc)
  qed
qed

lemma edgeLoop_everyNth:
  "0 < sp \<Longrightarrow> edgeLoop sel n sp 0 ps = Some (ps @ map sel (everyNth n sp))"
  by (simp add: edgeLoop_steps everyNth_def)

lemma pinEdge_edgeParticles:
  "0 < sp \<Longrightarrow> pinEdge c ps e sp = Some (ps @ edgeParticles c e sp)"
  by (simp add: pinEdge_def edgeParticles_def edgeLoop_everyNth)

lemma pinEdges_concat:
  "0 < sp \<Longrightarrow> ii = length es \<Longrightarrow> i \<le> ii \<Longrightarrow>
   pinEdges c es sp i ii ps = Some (ps @ concat (map (\<lambda>e. edgeParticles c e sp) (drop i es)))"
proof (induction c es sp i ii ps rule: pinEdges.induct)
  case (1 c es sp i ii ps)
  show ?case
  proof (cases "i < ii")
    case True
    with "1.prems" have d: "drop i es = es ! i # drop (i + 1) es"
      by (simp add: Cons_nth_drop_Suc)
    have e: "pinEdge c ps (es ! i) sp = Some (ps @ edgeParticles c (es ! i) sp)"
      using "1.prems" by (simp add: pinEdge_edgeParticles)
    from True "1.prems" e have "pinEdges c es sp (i + 1) ii (ps @ edgeParticles c (es ! i) sp)
        = Some ((ps @ edgeParticles c (es ! i) sp) @ concat (map (\<lambda>e. edgeParticles c e sp) (drop (i + 1) es)))"
      by (intro "1.IH") simp_all
    with True d e show ?thesis by (subst pinEdges.simps) simp
  next
    case False
    with "1.prems" show ?thesis by (subst pinEdges.simps) simp
  qed
qed

lemma pin_selected: "pin c ps options = Some (ps @ selected c options)"
proof -
  have sp: "0 < effectiveSpacing options"
    by (simp add: effectiveSpacing_def ensureValidSpacing_pos)
  show ?thesis
  proof (cases "edges options")
    case None
    then show ?thesis by (simp add: pin_def selected_def edgeList_def)
  next
    case (Some ev)
    then show ?thesis
      using sp
      by (cases ev)
        (simp_all add: pin_def selected_def edgeList_def Let_def pinEdge_edgeParticles
          pinEdges_concat effectiveSpacing_def)
  qed
qed

lemma Flag_pin_selected:
  "Flag_pin f options = Some (f\<lparr>pins := pins f @ selected (cloth f) options\<rparr>)"
  by (simp add: Flag_pin_def pin_selected)

lemma edgeParticles_unrecognized: "\<not> recognized e \<Longrightarrow> edgeParticles c e sp = []"
  by (simp add: recognized_def edgeParticles_def)

text \<open>
  Claim C10. \<^verbatim>\<open>Flag.pin\<close> accumulates: after a call the pin list is the list before
  the call with the newly selected particles appended at its end, and so it is after any
  sequence of calls; only \<^verbatim>\<open>unpin()\<close> removes particles, and it empties the list.
\<close>

theorem Flag_pin_appends:
  "Flag_pin f options = Some (f\<lparr>pins := pins f @ selected (cloth f) options\<rparr>)
   \<and> Flag_pins f calls = Some (f\<lparr>pins := pins f @ concat (map (selected (cloth f)) calls)\<rparr>)
   \<and> pins (Flag_unpin f) = []"
proof -
  have "Flag_pins f calls = Some (f\<lparr>pins := pins f @ concat (map (selected (cloth f)) calls)\<rparr>)"
    by (induction calls arbitrary: f) (simp_all add: Flag_pin_selected)
  then show ?thesis by (simp add: Flag_pin_selected Flag_unpin_def)
qed

text \<open>
  Claim C9. An edge value that is none of top, left, bottom, right adds no particle and
  does not make the call fail: the call returns, and the recognized edge values of the
  same call are processed as if the unknown value were not there.
\<close>

theorem pin_ignores_unrecognized:
  assumes "\<not> recognized e"
  shows "pinEdge c ps e sp = Some ps
    \<and> pin c ps \<lparr>edges = Some (EdgeString e), spacing = v\<rparr> = Some ps
    \<and> pin c ps \<lparr>edges = Some (EdgeArray (es1 @ e # es2)), spacing = v\<rparr>
        = pin c ps \<lparr>edges = Some (EdgeArray (es1 @ es2)), spacing = v\<rparr>
    \<and> pin c ps \<lparr>edges = Some (EdgeArray (es1 @ e # es2)), spacing = v\<rparr>
        = Some (ps @ selected c \<lparr>edges = Some (EdgeArray (es1 @ es2)), spacing = v\<rparr>)"
proof -
  have "pinEdge c ps e sp = Some ps"
    using assms by (simp add: pinEdge_def recognized_def)
  moreover have "selected c \<lparr>edges = Some (EdgeArray (es1 @ e # es2)), spacing = v\<rparr>
      = selected c \<lparr>edges = Some (EdgeArray (es1 @ es2)), spacing = v\<rparr>"
    using assms by (simp add: selected_def edgeList_def effectiveSpacing_def edgeParticles_unrecognized)
  moreover have "selected c \<lparr>edges = Some (EdgeString e), spacing = v\<rparr> = []"
    using assms by (simp add: selected_def edgeList_def edgeParticles_unrecognized)
  ultimately show ?thesis by (simp add: pin_selected)
qed

lemma sides_distinct:
  "Side_TOP \<noteq> Side_LEFT" "Side_TOP \<noteq> Side_BOTTOM" "Side_TOP \<noteq> Side_RIGHT"
  "Side_LEFT \<noteq> Side_TOP" "Side_LEFT \<noteq> Side_BOTTOM" "Side_LEFT \<noteq> Side_RIGHT"
  "Side_BOTTOM \<noteq> Side_TOP" "Side_BOTTOM \<noteq> Side_LEFT" "Side_BOTTOM \<noteq> Side_RIGHT"
  "Side_RIGHT \<noteq> Side_TOP" "Side_RIGHT \<noteq> Side_LEFT" "Side_RIGHT \<noteq> Side_BOTTOM"
  by (simp_all add: Side_TOP_def Side_LEFT_def Side_BOTTOM_def Side_RIGHT_def)

lemma everyNth_multiples:
  assumes "0 < sp"
  shows "everyNth n sp = map (\<lambda>k. k * sp) [0..<Suc (n div sp)]"
proof (rule sorted_distinct_set_unique)
  show "sorted (everyNth n sp)" unfolding everyNth_def by (rule sorted_wrt_filter) (rule sorted_upt)
  show "distinct (everyNth n sp)" unfolding everyNth_def by (rule distinct_filter) simp
  have mono: "\<And>a b. a < b \<Longrightarrow> a * sp < b * sp" using assms by simp
  show "sorted (map (\<lambda>k. k * sp) [0..<Suc (n div sp)])"
    using assms by (simp only: sorted_map) (rule sorted_wrt_mono_rel[OF _ sorted_upt], simp)
  show "distinct (map (\<lambda>k. k * sp) [0..<Suc (n div sp)])"
    using assms by (simp only: distinct_map) (simp add: inj_on_def)
  show "set (everyNth n sp) = set (map (\<lambda>k. k * sp) [0..<Suc (n div sp)])"
  proof (rule set_eqI)
    fix j
    show "j \<in> set (everyNth n sp) \<longleftrightarrow> j \<in> set (map (\<lambda>k. k * sp) [0..<Suc (n div sp)])"
    proof
      assume "j \<in> set (everyNth n sp)"
      then have j: "j \<le> n" "sp dvd j" by (auto simp: everyNth_def simp del: upt_Suc)
      then obtain k where k: "j = k * sp" unfolding dvd_def by (auto simp: mult.commute)
      with j assms have "k \<le> n div sp" by (simp add: less_eq_div_iff_mult_less_eq)
      with k show "j \<in> set (map (\<lambda>k. k * sp) [0..<Suc (n div sp)])" by auto
    next
      assume "j \<in> set (map (\<lambda>k. k * sp) [0..<Suc (n div sp)])"
      then obtain k where k: "j = k * sp" "k \<le> n div sp" by (fastforce simp del: upt_Suc)
      with assms have "k * sp \<le> n" by (simp add: less_eq_div_iff_mult_less_eq)
      with k show "j \<in> set (everyNth n sp)" by (auto simp: everyNth_def simp del: upt_Suc)
    qed
  qed
qed

lemma pin_string:
  "pin c ps \<lparr>edges = Some (EdgeString e), spacing = Some v\<rparr>
     = Some (ps @ edgeParticles c e (ensureValidSpacing v))"
  by (simp add: pin_selected selected_def edgeList_def effectiveSpacing_def)

text \<open>
  Claim C8. For every call of \<^verbatim>\<open>pin\<close> the spacing that the edge loops work with is a
  positive integer: a numeric spacing of at least 1 is floored, every other value (not
  numeric, or below 1) and an absent spacing give 1. The call then appends, for the
  chosen edge, the particles at the steps \<open>0, spacing, 2 * spacing, ...\<close> of that edge,
  in this order, and for an array of edges the selections of its entries in turn.
\<close>

theorem pin_spacing_stride:
  "0 < ensureValidSpacing v
   \<and> (1 \<le> r \<longrightarrow> int (ensureValidSpacing (Num (Fin r))) = \<lfloor>r\<rfloor>)
   \<and> (r < 1 \<longrightarrow> ensureValidSpacing (Num (Fin r)) = 1)
   \<and> (\<not> isNumeric v \<longrightarrow> ensureValidSpacing v = 1)
   \<and> ensureValidSpacing (Num NZero) = 1
   \<and> pin c ps \<lparr>edges = Some (EdgeString Side_TOP), spacing = Some v\<rparr>
       = Some (ps @ map (\<lambda>k. particleAt c (k * ensureValidSpacing v) (ySegments c))
                     [0..<Suc (xSegments c div ensureValidSpacing v)])
   \<and> pin c ps \<lparr>edges = Some (EdgeString Side_LEFT), spacing = Some v\<rparr>
       = Some (ps @ map (\<lambda>k. particleAt c 0 (k * ensureValidSpacing v))
                     [0..<Suc (ySegments c div ensureValidSpacing v)])
   \<and> pin c ps \<lparr>edges = Some (EdgeString Side_BOTTOM), spacing = Some v\<rparr>
       = Some (ps @ map (\<lambda>k. particleAt c (k * ensureValidSpacing v) 0)
                     [0..<Suc (xSegments c div ensureValidSpacing v)])
   \<and> pin c ps \<lparr>edges = Some (EdgeString Side_RIGHT), spacing = Some v\<rparr>
       = Some (ps @ map (\<lambda>k. particleAt c (xSegments c) (k * ensureValidSpacing v))
                     [0..<Suc (ySegments c div ensureValidSpacing v)])
   \<and> pin c ps \<lparr>edges = Some (EdgeArray es), spacing = Some v\<rparr>
       = Some (ps @ concat (map (\<lambda>e. edgeParticles c e (ensureValidSpacing v)) es))
   \<and> pin c ps \<lparr>edges = ev, spacing = None\<rparr>
       = pin c ps \<lparr>edges = ev, spacing = Some (Num (Fin 1))\<rparr>"
proof -
  have pos: "0 < ensureValidSpacing v" by (rule ensureValidSpacing_pos)
  have a: "1 \<le> r \<longrightarrow> int (ensureValidSpacing (Num (Fin r))) = \<lfloor>r\<rfloor>" by auto
  have b: "r < 1 \<longrightarrow> ensureValidSpacing (Num (Fin r)) = 1" by simp
  have n: "\<not> isNumeric v \<longrightarrow> ensureValidSpacing v = 1"
    by (cases v rule: isNumeric.cases) simp_all
  have t: "pin c ps \<lparr>edges = Some (EdgeString Side_TOP), spacing = Some v\<rparr>
       = Some (ps @ map (\<lambda>k. particleAt c (k * ensureValidSpacing v) (ySegments c))
                     [0..<Suc (xSegments c div ensureValidSpacing v)])"
    unfolding pin_string
    by (simp add: edgeParticles_def everyNth_multiples[OF pos] comp_def del: upt_Suc)
  have l: "pin c ps \<lparr>edges = Some (EdgeString Side_LEFT), spacing = Some v\<rparr>
       = Some (ps @ map (\<lambda>k. particleAt c 0 (k * ensureValidSpacing v))
                     [0..<Suc (ySegments c div ensureValidSpacing v)])"
    unfolding pin_string
    by (simp add: edgeParticles_def everyNth_multiples[OF pos] comp_def sides_distinct del: upt_Suc)
  have bo: "pin c ps \<lparr>edges = Some (EdgeString Side_BOTTOM), spacing = Some v\<rparr>
       = Some (ps @ map (\<lambda>k. particleAt c (k * ensureValidSpacing v) 0)
                     [0..<Suc (xSegments c div ensureValidSpacing v)])"
    unfolding pin_string
    by (simp add: edgeParticles_def everyNth_multiples[OF pos] comp_def sides_distinct del: upt_Suc)
  have ri: "pin c ps \<lparr>edges = Some (EdgeString Side_RIGHT), spacing = Some v\<rparr>
       = Some (ps @ map (\<lambda>k. particleAt c (xSegments c) (k * ensureValidSpacing v))
                     [0..<Suc (ySegments c div ensureValidSpacing v)])"
    unfolding pin_string
    by (simp add: edgeParticles_def everyNth_multiples[OF pos] comp_def sides_distinct del: upt_Suc)
  have ar: "pin c ps \<lparr>edges = Some (EdgeArray es), spacing = Some v\<rparr>
       = Some (ps @ concat (map (\<lambda>e. edgeParticles c e (ensureValidSpacing v)) es))"
    by (simp add: pin_selected selected_def edgeList_def effectiveSpacing_def)
  have d: "pin c ps \<lparr>edges = ev, spacing = None\<rparr>
       = pin c ps \<lparr>edges = ev, spacing = Some (Num (Fin 1))\<rparr>"
    by (simp add: pin_def)
  have z: "ensureValidSpacing (Num NZero) = 1" by simp
  from pos a b n z t l bo ri ar d show ?thesis by blast
qed

text \<open>
  An instance: a spacing of 2.5 is floored to 2, and the call pins the particles 0, 2
  and 4 of the top edge of a cloth of five segments by two; without a spacing it pins
  all six.
\<close>

theorem pin_spacing_stride_witness:
  "ensureValidSpacing (Num (Fin (5 / 2))) = 2
   \<and> ensureValidSpacing Auto = 1
   \<and> ensureValidSpacing (Num (Fin (1 / 2))) = 1
   \<and> pin grid5x2 [] \<lparr>edges = Some (EdgeString Side_TOP), spacing = Some (Num (Fin (5 / 2)))\<rparr>
       = Some [(0, 2), (2, 2), (4, 2)]
   \<and> pin grid5x2 [] \<lparr>edges = Some (EdgeString Side_TOP), spacing = None\<rparr>
       = Some [(0, 2), (1, 2), (2, 2), (3, 2), (4, 2), (5, 2)]"
proof -
  have f: "\<lfloor>5 / 2 :: real\<rfloor> = 2" by (simp add: floor_eq_iff)
  have g: "ensureValidSpacing (Num (Fin (5 / 2))) = 2" by (simp add: f)
  have h: "ensureValidSpacing (Num (Fin 1)) = 1" by simp
  have u2: "[0..<Suc (5 div 2)] = [0, 1, 2]" by code_simp
  have u1: "[0..<Suc (5 div 1)] = [0, 1, 2, 3, 4, 5]" by code_simp
  have x: "xSegments grid5x2 = 5" "ySegments grid5x2 = 2" "particleAt grid5x2 = Pair"
    by (simp_all add: grid5x2_def)
  have s2: "pin grid5x2 [] \<lparr>edges = Some (EdgeString Side_TOP), spacing = Some (Num (Fin (5 / 2)))\<rparr>
       = Some [(0, 2), (2, 2), (4, 2)]"
    using pin_spacing_stride [of "Num (Fin (5 / 2))" "5 / 2" grid5x2 "[]" "[]" None]
    unfolding g x u2 by simp
  have s1: "pin grid5x2 [] \<lparr>edges = Some (EdgeString Side_TOP), spacing = None\<rparr>
       = Some [(0, 2), (1, 2), (2, 2), (3, 2), (4, 2), (5, 2)]"
    using pin_spacing_stride [of "Num (Fin 1)" 1 grid5x2 "[]" "[]" "Some (EdgeString Side_TOP)"]
    unfolding h x u1 by simp
  from s1 s2 g show ?thesis by simp
qed

text \<open>An instance of claim C9: the edge value \<open>diagonal\<close> between top and bottom.\<close>

theorem pin_ignores_unrecognized_witness:
  "\<not> recognized ''diagonal''
   \<and> pinEdge unitGrid [] ''diagonal'' 1 = Some []
   \<and> pin unitGrid [] \<lparr>edges = Some (EdgeArray [Side_TOP, ''diagonal'', Side_BOTTOM]), spacing = None\<rparr>
       = Some [(0, 1), (1, 1), (0, 0), (1, 0)]"
proof -
  have n: "\<not> recognized ''diagonal''"
    by (simp add: recognized_def Side_TOP_def Side_LEFT_def Side_BOTTOM_def Side_RIGHT_def)
  show ?thesis
    using n pin_ignores_unrecognized [OF n, of unitGrid "[]" 1 None "[Side_TOP]" "[Side_BOTTOM]"]
    by (simp add: pin_selected selected_def edgeList_def effectiveSpacing_def edgeParticles_def
      unitGrid_def everyNth_def sides_distinct)
qed

text \<open>
  Pinning the top and the left edge of the one-by-one cloth in one call: the corner
  particle \<open>(0, 1)\<close>, which lies on both edges, is pushed twice, once by each edge.
  The claim that such a particle is added exactly once does not hold.
\<close>

theorem pin_duplicates_corner:
  "pin unitGrid [] \<lparr>edges = Some (EdgeArray [Side_TOP, Side_LEFT]), spacing = None\<rparr>
     = Some [(0, 1), (1, 1), (0, 0), (0, 1)]
   \<and> count_list [(0, 1), (1, 1), (0, 0), (0, 1)] (0::nat, 1::nat) = 2"
  by (simp add: pin_selected selected_def edgeList_def effectiveSpacing_def edgeParticles_def
      unitGrid_def everyNth_def sides_distinct)

lemma count_list_concat:
  "count_list (concat xss) p = sum_list (map (\<lambda>xs. count_list xs p) xss)"
  by (induction xss) simp_all

lemma count_list_distinct: "distinct xs \<Longrightarrow> count_list xs p = (if p \<in> set xs then 1 else 0)"
  by (induction xs) auto

lemma sum_list_indicator: "sum_list (map (\<lambda>x. if P x then 1 else 0) xs) = length (filter P xs)"
  by (induction xs) simp_all

lemma everyNth_range: "set (everyNth n sp) \<subseteq> {0..n}"
  by (auto simp: everyNth_def simp del: upt_Suc)

lemma distinct_everyNth: "distinct (everyNth n sp)"
  unfolding everyNth_def by (rule distinct_filter) simp

lemma distinct_edgeParticles:
  assumes "inj_on (\<lambda>(u, v). particleAt c u v) ({0..xSegments c} \<times> {0..ySegments c})"
  shows "distinct (edgeParticles c e sp)"
proof -
  have row: "inj_on (\<lambda>i. particleAt c i v) (set (everyNth (xSegments c) sp))" if "v \<le> ySegments c" for v
  proof (rule inj_onI)
    fix i j assume "i \<in> set (everyNth (xSegments c) sp)" "j \<in> set (everyNth (xSegments c) sp)"
      and eq: "particleAt c i v = particleAt c j v"
    then have "(i, v) \<in> {0..xSegments c} \<times> {0..ySegments c}" "(j, v) \<in> {0..xSegments c} \<times> {0..ySegments c}"
      using everyNth_range[of "xSegments c" sp] that by auto
    with eq have "(i, v) = (j, v)" by (intro inj_onD[OF assms]) simp_all
    then show "i = j" by simp
  qed
  have col: "inj_on (\<lambda>i. particleAt c u i) (set (everyNth (ySegments c) sp))" if "u \<le> xSegments c" for u
  proof (rule inj_onI)
    fix i j assume "i \<in> set (everyNth (ySegments c) sp)" "j \<in> set (everyNth (ySegments c) sp)"
      and eq: "particleAt c u i = particleAt c u j"
    then have "(u, i) \<in> {0..xSegments c} \<times> {0..ySegments c}" "(u, j) \<in> {0..xSegments c} \<times> {0..ySegments c}"
      using everyNth_range[of "ySegments c" sp] that by auto
    with eq have "(u, i) = (u, j)" by (intro inj_onD[OF assms]) simp_all
    then show "i = j" by simp
  qed
  show ?thesis
    by (simp add: edgeParticles_def distinct_map distinct_everyNth row col)
qed

text \<open>
  Claim C5, as the code has it. A call of \<^verbatim>\<open>pin\<close> with several edges appends the
  selection of each edge entry in turn and removes no duplicate: where different grid
  positions hold different particles, a particle is added once for every entry of
  \<open>edges\<close> whose selection contains it (twice for a corner shared by two selected
  edges).
\<close>

theorem pin_once_per_edge:
  assumes "inj_on (\<lambda>(u, v). particleAt c u v) ({0..xSegments c} \<times> {0..ySegments c})"
  shows "pin c ps options = Some (ps @ selected c options)
    \<and> count_list (selected c options) p
        = length [e \<leftarrow> edgeList options. p \<in> set (edgeParticles c e (effectiveSpacing options))]"
proof -
  have "count_list (edgeParticles c e sp) p = (if p \<in> set (edgeParticles c e sp) then 1 else 0)" for e sp
    using assms by (simp add: count_list_distinct distinct_edgeParticles)
  then show ?thesis
    by (simp add: pin_selected selected_def count_list_concat comp_def sum_list_indicator)
qed

text \<open>An instance: top and left of the one-by-one cloth, the shared corner and another particle.\<close>

theorem pin_once_per_edge_witness:
  "inj_on (\<lambda>(u, v). particleAt unitGrid u v) ({0..xSegments unitGrid} \<times> {0..ySegments unitGrid})
   \<and> count_list (selected unitGrid \<lparr>edges = Some (EdgeArray [Side_TOP, Side_LEFT]), spacing = None\<rparr>) (0, 1)
      = 2
   \<and> count_list (selected unitGrid \<lparr>edges = Some (EdgeArray [Side_TOP, Side_LEFT]), spacing = None\<rparr>) (1, 1)
      = 1"
proof -
  have i: "inj_on (\<lambda>(u, v). particleAt unitGrid u v) ({0..xSegments unitGrid} \<times> {0..ySegments unitGrid})"
    by (simp add: unitGrid_def inj_on_def)
  show ?thesis
    using i pin_once_per_edge [OF i, of "[]" "\<lparr>edges = Some (EdgeArray [Side_TOP, Side_LEFT]), spacing = None\<rparr>" "(0, 1)"]
      pin_once_per_edge [OF i, of "[]" "\<lparr>edges = Some (EdgeArray [Side_TOP, Side_LEFT]), spacing = None\<rparr>" "(1, 1)"]
    by (simp add: edgeList_def effectiveSpacing_def edgeParticles_def
      unitGrid_def everyNth_def sides_distinct)
qed

section \<open>Properties of \<^verbatim>\<open>Flag.setLengthConstraints\<close>\<close>

lemma leftInner_row:
  "leftInner c v u lc =
     lc @ map (\<lambda>u. FixedConstraint (particleAt c u v) (particleAt c (u + 1) v) (restDistance c))
            [u..<xSegments c]"
proof (induction c v u lc rule: leftInner.induct)
  case (1 c v u lc)
  show ?case
  proof (cases "u < xSegments c")
    case True
    then have "[u..<xSegments c] = u # [u + 1..<xSegments c]"
      by (simp add: upt_conv_Cons)
    with True "1.IH" show ?thesis by (subst leftInner.simps) simp
  next
    case False
    then show ?thesis by (subst leftInner.simps) simp
  qed
qed

lemma leftInner_0: "leftInner c v 0 lc = lc @ hoistToFlyRow c v"
  by (simp add: leftInner_row hoistToFlyRow_def)

lemma leftOuter_rows:
  "leftOuter c v lc = lc @ concat (map (hoistToFlyRow c) [v..<Suc (ySegments c)])"
proof (induction c v lc rule: leftOuter.induct)
  case (1 c v lc)
  show ?case
  proof (cases "v \<le> ySegments c")
    case True
    then have "[v..<Suc (ySegments c)] = v # [v + 1..<Suc (ySegments c)]"
      by (simp add: upt_conv_Cons)
    with True "1.IH" show ?thesis
      by (subst leftOuter.simps) (simp add: leftInner_0 del: upt_Suc)
  next
    case False
    then show ?thesis by (subst leftOuter.simps) simp
  qed
qed

lemma topInner_column:
  "topInner c u v lc =
     lc @ map (\<lambda>v. FixedConstraint (particleAt c u v) (particleAt c u (v - 1)) (restDistance c))
            (rev [1..<Suc v])"
proof (induction c u v lc rule: topInner.induct)
  case (1 c u v lc)
  show ?case
  proof (cases "v > 0")
    case True
    then have "rev [1..<Suc v] = v # rev [1..<Suc (v - 1)]"
      by (cases v) simp_all
    with True "1.IH" show ?thesis by (subst topInner.simps) (simp del: upt_Suc)
  next
    case False
    then show ?thesis by (subst topInner.simps) simp
  qed
qed

lemma topInner_top: "topInner c u (ySegments c) lc = lc @ topToBottomColumn c u"
  by (simp add: topInner_column topToBottomColumn_def)

lemma topOuter_columns:
  "topOuter c u lc = lc @ concat (map (topToBottomColumn c) [u..<Suc (xSegments c)])"
proof (induction c u lc rule: topOuter.induct)
  case (1 c u lc)
  show ?case
  proof (cases "u \<le> xSegments c")
    case True
    then have "[u..<Suc (xSegments c)] = u # [u + 1..<Suc (xSegments c)]"
      by (simp add: upt_conv_Cons)
    with True "1.IH" show ?thesis
      by (subst topOuter.simps) (simp add: topInner_top del: upt_Suc)
  next
    case False
    then show ?thesis by (subst topOuter.simps) simp
  qed
qed

lemma nth_concat_uniform:
  "\<forall>xs \<in> set xss. length xs = n \<Longrightarrow> v < length xss \<Longrightarrow> u < n \<Longrightarrow>
   concat xss ! (v * n + u) = xss ! v ! u"
proof (induction xss arbitrary: v)
  case Nil
  then show ?case by simp
next
  case (Cons xs xss)
  show ?case
  proof (cases v)
    case 0
    with Cons.prems show ?thesis by (simp add: nth_append)
  next
    case (Suc w)
    with Cons.prems have "concat xss ! (w * n + u) = xss ! w ! u"
      by (intro Cons.IH) simp_all
    with Suc Cons.prems show ?thesis by (simp add: nth_append)
  qed
qed

lemma length_concat_uniform:
  "\<forall>xs \<in> set xss. length xs = n \<Longrightarrow> length (concat xss) = length xss * n"
  by (induction xss) simp_all

lemma setLengthConstraints_LEFT:
  "lengthConstraints (setLengthConstraints f Side_LEFT) = hoistToFly (cloth f)"
  by (simp add: setLengthConstraints_def leftOuter_rows hoistToFly_def)

lemma setLengthConstraints_TOP:
  "lengthConstraints (setLengthConstraints f Side_TOP) = topToBottom (cloth f)"
  by (simp add: setLengthConstraints_def topOuter_columns topToBottom_def sides_distinct)

lemma hoistToFly_nth:
  assumes "u < xSegments c" "v \<le> ySegments c"
  shows "hoistToFly c ! (v * xSegments c + u)
    = FixedConstraint (particleAt c u v) (particleAt c (u + 1) v) (restDistance c)"
proof -
  have "hoistToFly c ! (v * xSegments c + u) = map (hoistToFlyRow c) [0..<Suc (ySegments c)] ! v ! u"
    unfolding hoistToFly_def using assms
    by (intro nth_concat_uniform) (simp_all add: hoistToFlyRow_def del: upt_Suc)
  also have "\<dots> = hoistToFlyRow c v ! u"
    using assms by (simp del: upt_Suc)
  also have "\<dots> = FixedConstraint (particleAt c u v) (particleAt c (u + 1) v) (restDistance c)"
    using assms by (simp add: hoistToFlyRow_def)
  finally show ?thesis .
qed

lemma topToBottom_nth:
  assumes "u \<le> xSegments c" "0 < v" "v \<le> ySegments c"
  shows "topToBottom c ! (u * ySegments c + (ySegments c - v))
    = FixedConstraint (particleAt c u v) (particleAt c u (v - 1)) (restDistance c)"
proof -
  have "topToBottom c ! (u * ySegments c + (ySegments c - v))
      = map (topToBottomColumn c) [0..<Suc (xSegments c)] ! u ! (ySegments c - v)"
    unfolding topToBottom_def using assms
    by (intro nth_concat_uniform) (simp_all add: topToBottomColumn_def del: upt_Suc)
  also have "\<dots> = topToBottomColumn c u ! (ySegments c - v)"
    using assms by (simp del: upt_Suc)
  also have "\<dots> = FixedConstraint (particleAt c u v) (particleAt c u (v - 1)) (restDistance c)"
    using assms by (simp add: topToBottomColumn_def rev_nth del: upt_Suc)
  finally show ?thesis .
qed

text \<open>
  Claim C3. For every grid \<^verbatim>\<open>setLengthConstraints\<close> stores direct-neighbour pairs along
  the axis perpendicular to the pinned edge, each with target length \<open>restDistance\<close>,
  and nearer the hoist first: for the left side the constraint from \<open>(u, v)\<close> to
  \<open>(u + 1, v)\<close> stands at index \<open>v * xSegments + u\<close>, so within a row the order is
  that of increasing \<open>u\<close>; for the top side the constraint from \<open>(u, v)\<close> to
  \<open>(u, v - 1)\<close> stands at index \<open>u * ySegments + (ySegments - v)\<close>, so within a column
  the order is that of decreasing \<open>v\<close>.
\<close>

theorem setLengthConstraints_order:
  "lengthConstraints (setLengthConstraints f Side_LEFT) = hoistToFly (cloth f)
   \<and> lengthConstraints (setLengthConstraints f Side_TOP) = topToBottom (cloth f)
   \<and> length (hoistToFly (cloth f)) = (ySegments (cloth f) + 1) * xSegments (cloth f)
   \<and> length (topToBottom (cloth f)) = (xSegments (cloth f) + 1) * ySegments (cloth f)
   \<and> (u < xSegments (cloth f) \<and> v \<le> ySegments (cloth f) \<longrightarrow>
        lengthConstraints (setLengthConstraints f Side_LEFT) ! (v * xSegments (cloth f) + u)
        = FixedConstraint (particleAt (cloth f) u v) (particleAt (cloth f) (u + 1) v)
            (restDistance (cloth f)))
   \<and> (u \<le> xSegments (cloth f) \<and> 0 < v \<and> v \<le> ySegments (cloth f) \<longrightarrow>
        lengthConstraints (setLengthConstraints f Side_TOP)
          ! (u * ySegments (cloth f) + (ySegments (cloth f) - v))
        = FixedConstraint (particleAt (cloth f) u v) (particleAt (cloth f) u (v - 1))
            (restDistance (cloth f)))"
proof -
  have "length (hoistToFly (cloth f)) = (ySegments (cloth f) + 1) * xSegments (cloth f)"
    unfolding hoistToFly_def
    by (subst length_concat_uniform[where n = "xSegments (cloth f)"])
       (simp_all add: hoistToFlyRow_def del: upt_Suc)
  moreover have "length (topToBottom (cloth f)) = (xSegments (cloth f) + 1) * ySegments (cloth f)"
    unfolding topToBottom_def
    by (subst length_concat_uniform[where n = "ySegments (cloth f)"])
       (simp_all add: topToBottomColumn_def del: upt_Suc)
  ultimately show ?thesis
    unfolding setLengthConstraints_LEFT setLengthConstraints_TOP
    using hoistToFly_nth[of u "cloth f" v] topToBottom_nth[of u "cloth f" v] by blast
qed

text \<open>An instance on the cloth of five segments by two.\<close>

theorem setLengthConstraints_order_witness:
  "lengthConstraints (setLengthConstraints flag5x2 Side_LEFT) ! 7
     = FixedConstraint (2, 1) (3, 1) 1
   \<and> lengthConstraints (setLengthConstraints flag5x2 Side_LEFT) ! 8
     = FixedConstraint (3, 1) (4, 1) 1
   \<and> lengthConstraints (setLengthConstraints flag5x2 Side_TOP) ! 6
     = FixedConstraint (3, 2) (3, 1) 1
   \<and> lengthConstraints (setLengthConstraints flag5x2 Side_TOP) ! 7
     = FixedConstraint (3, 1) (3, 0) 1
   \<and> length (lengthConstraints (setLengthConstraints flag5x2 Side_LEFT)) = 15
   \<and> length (lengthConstraints (setLengthConstraints flag5x2 Side_TOP)) = 12"
proof -
  have c: "cloth flag5x2 = grid5x2" by (simp add: flag5x2_def)
  have g: "xSegments grid5x2 = 5" "ySegments grid5x2 = 2" "restDistance grid5x2 = 1"
    "particleAt grid5x2 = Pair" by (simp_all add: grid5x2_def)
  show ?thesis
    using setLengthConstraints_order [of flag5x2 2 1] setLengthConstraints_order [of flag5x2 3 1]
      setLengthConstraints_order [of flag5x2 3 2]
    unfolding c g by auto
qed

section \<open>The pins at the end of \<^verbatim>\<open>Flag.simulate\<close>\<close>











section \<open>Properties of the arithmetic of doubles\<close>

lemma pow2_powr: "pow2 k = 2 powr (of_int k)"
  by (simp add: pow2_def powr_int)

lemma pow2_pos: "0 < pow2 k"
  by (simp add: pow2_def)

lemma pow2_add: "pow2 (a + b) = pow2 a * pow2 b"
  by (simp add: pow2_powr powr_add)

lemma pow2_mono: "a \<le> b \<Longrightarrow> pow2 a \<le> pow2 b"
  by (simp add: pow2_powr)

lemma binExponent_eq:
  assumes "pow2 e \<le> \<bar>x\<bar>" "\<bar>x\<bar> < pow2 (e + 1)"
  shows "binExponent x = e"
proof -
  have pos: "0 < \<bar>x\<bar>" using assms(1) pow2_pos[of e] by linarith
  have "of_int e \<le> log 2 \<bar>x\<bar>"
    using assms(1) pos by (simp add: le_log_iff pow2_powr)
  moreover have "log 2 \<bar>x\<bar> < of_int e + 1"
    using assms(2) pos by (simp add: log_less_iff pow2_powr)
  ultimately show ?thesis unfolding binExponent_def by (simp add: floor_eq_iff)
qed

text \<open>
  The double nearest to \<open>x\<close>, for a number in the normal range whose binary exponent \<open>e\<close>
  and rounded mantissa \<open>n\<close> are known.
\<close>

lemma fl_eval:
  assumes "pow2 e \<le> \<bar>x\<bar>" "\<bar>x\<bar> < pow2 (e + 1)" "- 1022 \<le> e" "e < 1023"
    and "roundHalfEven (x / pow2 (e - 52)) = n" "n \<noteq> 0" "\<bar>n\<bar> \<le> 2 ^ 53"
  shows "fl x = Fin (of_int n * pow2 (e - 52))"
proof -
  have e: "max (binExponent x) (- 1022) = e"
    using binExponent_eq[OF assms(1,2)] assms(3) by simp
  have q: "0 < pow2 (e - 52)" by (rule pow2_pos)
  have "\<bar>of_int n * pow2 (e - 52)\<bar> = \<bar>of_int n\<bar> * pow2 (e - 52)"
    using q by (simp add: abs_mult)
  also have "\<dots> \<le> 2 ^ 53 * pow2 (e - 52)"
  proof (rule mult_right_mono)
    have "real_of_int \<bar>n\<bar> \<le> real_of_int (2 ^ 53)"
      using assms(7) by (rule of_int_le_iff[THEN iffD2])
    then show "\<bar>real_of_int n\<bar> \<le> 2 ^ 53" by simp
    show "0 \<le> pow2 (e - 52)" using q by simp
  qed
  also have "\<dots> = pow2 53 * pow2 (e - 52)" by (simp add: pow2_def)
  also have "\<dots> = pow2 (53 + (e - 52))" by (simp only: pow2_add)
  also have "\<dots> = pow2 (e + 1)" by (simp add: algebra_simps)
  also have "\<dots> \<le> pow2 1023" using assms(4) by (intro pow2_mono) simp
  also have "\<dots> < pow2 1024" by (simp add: pow2_powr)
  finally have ov: "\<not> pow2 1024 \<le> \<bar>of_int n * pow2 (e - 52)\<bar>" by simp
  have nz: "of_int n * pow2 (e - 52) \<noteq> 0" using assms(6) q by simp
  show ?thesis
    unfolding fl_def e Let_def assms(5) using ov nz by simp
qed

lemma fl_cases: "(\<exists>y. fl x = Fin y) \<or> fl x = NZero \<or> fl x = PInf \<or> fl x = NInf"
  by (simp add: fl_def Let_def)

lemma js_round_cases:
  "(\<exists>k. js_round (Fin y) = Fin (of_int k)) \<or> js_round (Fin y) = NZero"
  by simp

lemma clamp_finite:
  "js_max (Fin 1) (js_round (Fin y)) = Fin (of_int (max 1 \<lfloor>y + 1 / 2\<rfloor>))"
  by (auto simp: max_def)

lemma clamp_fl:
  "js_max (Fin 1) (js_round (fl x)) = PInf
   \<or> (\<exists>n. 1 \<le> n \<and> js_max (Fin 1) (js_round (fl x)) = Fin (of_int n))"
proof -
  consider y where "fl x = Fin y" | "fl x = NZero" | "fl x = PInf" | "fl x = NInf"
    using fl_cases[of x] by blast
  then show ?thesis
  proof cases
    case 1
    have "1 \<le> max 1 \<lfloor>y + 1 / 2\<rfloor>" by simp
    with 1 show ?thesis unfolding 1 clamp_finite by blast
  next
    case 2
    then show ?thesis by (auto intro: exI[of _ 1])
  next
    case 3
    then show ?thesis by simp
  next
    case 4
    then show ?thesis by (auto intro: exI[of _ 1])
  qed
qed

lemma clamp_NaN: "(js_max (Fin 1) (js_round x) = NaN) = (x = NaN)"
  by (cases x) (auto split: if_splits)

lemma clamp_at_least_1: "x \<noteq> NaN \<Longrightarrow> js_less_eq (Fin 1) (js_max (Fin 1) (js_round x))"
  by (cases x) (auto split: if_splits)

text \<open>The doubles of the examples.\<close>

lemma fl_18: "fl (18 / 10) = Fin (8106479329266893 / 4503599627370496)"
  using fl_eval[where x = "18 / 10" and e = "0" and n = 8106479329266893]
  by (simp add: pow2_def roundHalfEven_def Let_def)

lemma fl_12: "fl (12 / 10) = Fin (5404319552844595 / 4503599627370496)"
  using fl_eval[where x = "12 / 10" and e = "0" and n = 5404319552844595]
  by (simp add: pow2_def roundHalfEven_def Let_def)

lemma fl_012: "fl (12 / 100) = Fin (1080863910568919 / 9007199254740992)"
  using fl_eval[where x = "12 / 100" and e = "-4" and n = 8646911284551352]
  by (simp add: pow2_def roundHalfEven_def Let_def)

lemma div_12_10: "js_div (Fin (5404319552844595 / 4503599627370496)) (Fin (10)) = Fin (1080863910568919 / 9007199254740992)"
proof -
  have "fl ((5404319552844595 / 4503599627370496) / (10)) = Fin (1080863910568919 / 9007199254740992)"
    using fl_eval[where x = "(5404319552844595 / 4503599627370496) / (10)" and e = "-4" and n = 8646911284551352]
    by (simp add: pow2_def roundHalfEven_def Let_def)
  then show ?thesis by (simp add: js_div_def)
qed

lemma div_18_rd: "js_div (Fin (8106479329266893 / 4503599627370496)) (Fin (1080863910568919 / 9007199254740992)) = Fin (8444249301319681 / 562949953421312)"
proof -
  have "fl ((8106479329266893 / 4503599627370496) / (1080863910568919 / 9007199254740992)) = Fin (8444249301319681 / 562949953421312)"
    using fl_eval[where x = "(8106479329266893 / 4503599627370496) / (1080863910568919 / 9007199254740992)" and e = "3" and n = 8444249301319681]
    by (simp add: pow2_def roundHalfEven_def Let_def)
  then show ?thesis by (simp add: js_div_def)
qed

lemma div_12_rd: "js_div (Fin (5404319552844595 / 4503599627370496)) (Fin (1080863910568919 / 9007199254740992)) = Fin (10)"
proof -
  have "fl ((5404319552844595 / 4503599627370496) / (1080863910568919 / 9007199254740992)) = Fin (10)"
    using fl_eval[where x = "(5404319552844595 / 4503599627370496) / (1080863910568919 / 9007199254740992)" and e = "3" and n = 5629499534213120]
    by (simp add: pow2_def roundHalfEven_def Let_def)
  then show ?thesis by (simp add: js_div_def)
qed

lemma mul_12_300: "js_mul (Fin (5404319552844595 / 4503599627370496)) (Fin (300)) = Fin (360)"
proof -
  have "fl ((5404319552844595 / 4503599627370496) * (300)) = Fin (360)"
    using fl_eval[where x = "(5404319552844595 / 4503599627370496) * (300)" and e = "8" and n = 6333186975989760]
    by (simp add: pow2_def roundHalfEven_def Let_def)
  then show ?thesis by (simp add: js_mul_def)
qed

lemma div_360_200: "js_div (Fin (360)) (Fin (200)) = Fin (8106479329266893 / 4503599627370496)"
proof -
  have "fl ((360) / (200)) = Fin (8106479329266893 / 4503599627370496)"
    using fl_eval[where x = "(360) / (200)" and e = "0" and n = 8106479329266893]
    by (simp add: pow2_def roundHalfEven_def Let_def)
  then show ?thesis by (simp add: js_div_def)
qed

lemma div_500_18: "js_div (Fin (500)) (Fin (8106479329266893 / 4503599627370496)) = Fin (4886718345671111 / 17592186044416)"
proof -
  have "fl ((500) / (8106479329266893 / 4503599627370496)) = Fin (4886718345671111 / 17592186044416)"
    using fl_eval[where x = "(500) / (8106479329266893 / 4503599627370496)" and e = "8" and n = 4886718345671111]
    by (simp add: pow2_def roundHalfEven_def Let_def)
  then show ?thesis by (simp add: js_div_def)
qed

lemma mul_18_1: "js_mul (Fin (8106479329266893 / 4503599627370496)) (Fin (1)) = Fin (8106479329266893 / 4503599627370496)"
proof -
  have "fl ((8106479329266893 / 4503599627370496) * (1)) = Fin (8106479329266893 / 4503599627370496)"
    using fl_eval[where x = "(8106479329266893 / 4503599627370496) * (1)" and e = "0" and n = 8106479329266893]
    by (simp add: pow2_def roundHalfEven_def Let_def)
  then show ?thesis by (simp add: js_mul_def)
qed

lemma mul_12_1: "js_mul (Fin (5404319552844595 / 4503599627370496)) (Fin (1)) = Fin (5404319552844595 / 4503599627370496)"
proof -
  have "fl ((5404319552844595 / 4503599627370496) * (1)) = Fin (5404319552844595 / 4503599627370496)"
    using fl_eval[where x = "(5404319552844595 / 4503599627370496) * (1)" and e = "0" and n = 5404319552844595]
    by (simp add: pow2_def roundHalfEven_def Let_def)
  then show ?thesis by (simp add: js_mul_def)
qed

lemma div_1_4: "js_div (Fin (1)) (Fin (4)) = Fin (1 / 4)"
proof -
  have "fl ((1) / (4)) = Fin (1 / 4)"
    using fl_eval[where x = "(1) / (4)" and e = "-2" and n = 4503599627370496]
    by (simp add: pow2_def roundHalfEven_def Let_def)
  then show ?thesis by (simp add: js_div_def)
qed

lemma fl_3_10: "fl (3 / 10) = Fin (5404319552844595 / 18014398509481984)"
  using fl_eval[where x = "3 / 10" and e = "-2" and n = 5404319552844595]
  by (simp add: pow2_def roundHalfEven_def Let_def)

lemma fl_1_5: "fl (1 / 5) = Fin (3602879701896397 / 18014398509481984)"
  using fl_eval[where x = "1 / 5" and e = "-3" and n = 7205759403792794]
  by (simp add: pow2_def roundHalfEven_def Let_def)

lemma div_03_02: "js_div (Fin (5404319552844595 / 18014398509481984)) (Fin (3602879701896397 / 18014398509481984)) = Fin (6755399441055743 / 4503599627370496)"
proof -
  have "fl ((5404319552844595 / 18014398509481984) / (3602879701896397 / 18014398509481984)) = Fin (6755399441055743 / 4503599627370496)"
    using fl_eval[where x = "(5404319552844595 / 18014398509481984) / (3602879701896397 / 18014398509481984)" and e = "0" and n = 6755399441055743]
    by (simp add: pow2_def roundHalfEven_def Let_def)
  then show ?thesis by (simp add: js_div_def)
qed

text \<open>
  The quotient of the doubles 0.3 and 0.2 is the double just below 1.5, which rounds
  to 1, although the real quotient 1.5 would round to 2.
\<close>

lemma clamp_03_02: "js_max (Fin 1) (js_round (js_div (fl (3 / 10)) (fl (1 / 5)))) = Fin 1"
proof -
  have f: "\<lfloor>6755399441055743 / 4503599627370496 + 1 / 2 :: real\<rfloor> = 1" by (simp add: floor_eq_iff)
  show ?thesis by (simp add: fl_3_10 fl_1_5 div_03_02 f)
qed

lemma roundHalfEven_ge: "\<lfloor>t\<rfloor> \<le> roundHalfEven t"
  by (simp add: roundHalfEven_def Let_def)

text \<open>A positive quotient of \<open>2 ^ 1024\<close> or more overflows to \<open>Infinity\<close>.\<close>

lemma fl_overflow:
  assumes "pow2 e \<le> x" "x < pow2 (e + 1)" "1024 \<le> e"
  shows "fl x = PInf"
proof -
  have xpos: "0 < x" using assms(1) pow2_pos[of e] by linarith
  then have ax: "\<bar>x\<bar> = x" by simp
  have e: "max (binExponent x) (- 1022) = e"
    using binExponent_eq[of e x] assms ax by simp
  have q: "0 < pow2 (e - 52)" by (rule pow2_pos)
  have "pow2 e = pow2 (52 + (e - 52))" by simp
  also have "\<dots> = pow2 52 * pow2 (e - 52)" by (rule pow2_add)
  finally have pe: "pow2 e = pow2 52 * pow2 (e - 52)" .
  have "pow2 52 \<le> x / pow2 (e - 52)"
    using assms(1) q unfolding pe by (simp add: pos_le_divide_eq)
  then have "(2 ^ 52 :: real) \<le> x / pow2 (e - 52)" by (simp add: pow2_def)
  then have "(2 ^ 52 :: int) \<le> \<lfloor>x / pow2 (e - 52)\<rfloor>" by (simp add: le_floor_iff)
  then have "(2 ^ 52 :: int) \<le> roundHalfEven (x / pow2 (e - 52))"
    using roundHalfEven_ge[of "x / pow2 (e - 52)"] by linarith
  then have "real_of_int (2 ^ 52) \<le> real_of_int (roundHalfEven (x / pow2 (e - 52)))"
    by (rule of_int_le_iff[THEN iffD2])
  then have n: "pow2 52 \<le> real_of_int (roundHalfEven (x / pow2 (e - 52)))"
    by (simp add: pow2_def)
  have "pow2 1024 \<le> pow2 e" using assms(3) by (rule pow2_mono)
  also have "\<dots> \<le> real_of_int (roundHalfEven (x / pow2 (e - 52))) * pow2 (e - 52)"
    unfolding pe using n q by (simp add: mult_right_mono)
  finally have "pow2 1024 \<le> \<bar>real_of_int (roundHalfEven (x / pow2 (e - 52))) * pow2 (e - 52)\<bar>"
    by simp
  then show ?thesis
    unfolding fl_def e Let_def using xpos by simp
qed

lemma fl_9_5: "fl (9 / 5) = Fin (8106479329266893 / 4503599627370496)"
  using fl_18 by simp

lemma fl_6_5: "fl (6 / 5) = Fin (5404319552844595 / 4503599627370496)"
  using fl_12 by simp

lemma fl_3_25: "fl (3 / 25) = Fin (1080863910568919 / 9007199254740992)"
  using fl_012 by simp

lemmas fl_literals = fl_9_5 fl_6_5 fl_3_25

section \<open>Properties of the cloth construction\<close>

text \<open>
  The width 0 with the rest distance 0: the quotient is NaN, and so is the segment
  count; it is not at least 1.
\<close>

theorem buildCloth_zero_over_zero:
  "argXSegments (buildCloth \<lparr>flagWidth = Fin 0, flagHeight = Fin 0, flagMass = Fin 1,
        flagRestDistance = Fin 0\<rparr>) = NaN
   \<and> argYSegments (buildCloth \<lparr>flagWidth = Fin 0, flagHeight = Fin 0, flagMass = Fin 1,
        flagRestDistance = Fin 0\<rparr>) = NaN
   \<and> \<not> js_less_eq (Fin 1) (argXSegments (buildCloth \<lparr>flagWidth = Fin 0, flagHeight = Fin 0,
        flagMass = Fin 1, flagRestDistance = Fin 0\<rparr>))"
  by (simp add: buildCloth_def js_div_def)

text \<open>
  Claim C6, as the code has it. For every \<open>w\<close>, \<open>h\<close> and \<open>r\<close> the cloth is constructed
  with \<^verbatim>\<open>Math.max(1, Math.round(w / r))\<close> by \<^verbatim>\<open>Math.max(1, Math.round(h / r))\<close> segments.
  A segment count is NaN exactly when the quotient is NaN, and at least 1 otherwise. For
  \<open>w = 1.8\<close>, \<open>h = 1.2\<close>, \<open>r = 0.12\<close> the counts are 15 by 10.
\<close>

theorem buildCloth_segments:
  "argXSegments (buildCloth options)
     = js_max (Fin 1) (js_round (js_div (flagWidth options) (flagRestDistance options)))
   \<and> argYSegments (buildCloth options)
     = js_max (Fin 1) (js_round (js_div (flagHeight options) (flagRestDistance options)))
   \<and> (argXSegments (buildCloth options) = NaN)
     = (js_div (flagWidth options) (flagRestDistance options) = NaN)
   \<and> (argYSegments (buildCloth options) = NaN)
     = (js_div (flagHeight options) (flagRestDistance options) = NaN)
   \<and> (argXSegments (buildCloth options) \<noteq> NaN \<longrightarrow>
        js_less_eq (Fin 1) (argXSegments (buildCloth options)))
   \<and> (argYSegments (buildCloth options) \<noteq> NaN \<longrightarrow>
        js_less_eq (Fin 1) (argYSegments (buildCloth options)))
   \<and> argXSegments (buildCloth \<lparr>flagWidth = fl (18 / 10), flagHeight = fl (12 / 10), flagMass = m,
        flagRestDistance = fl (12 / 100)\<rparr>) = Fin 15
   \<and> argYSegments (buildCloth \<lparr>flagWidth = fl (18 / 10), flagHeight = fl (12 / 10), flagMass = m,
        flagRestDistance = fl (12 / 100)\<rparr>) = Fin 10"
proof -
  have x: "argXSegments (buildCloth options)
     = js_max (Fin 1) (js_round (js_div (flagWidth options) (flagRestDistance options)))"
    by (simp add: buildCloth_def)
  have y: "argYSegments (buildCloth options)
     = js_max (Fin 1) (js_round (js_div (flagHeight options) (flagRestDistance options)))"
    by (simp add: buildCloth_def)
  have f1: "\<lfloor>8444249301319681 / 562949953421312 + 1 / 2 :: real\<rfloor> = 15"
    by (simp add: floor_eq_iff)
  have f2: "\<lfloor>10 + 1 / 2 :: real\<rfloor> = 10"
    by (simp add: floor_eq_iff)
  have ex: "argXSegments (buildCloth \<lparr>flagWidth = fl (18 / 10), flagHeight = fl (12 / 10),
        flagMass = m, flagRestDistance = fl (12 / 100)\<rparr>) = Fin 15"
    by (simp add: buildCloth_def fl_literals div_18_rd f1)
  have ey: "argYSegments (buildCloth \<lparr>flagWidth = fl (18 / 10), flagHeight = fl (12 / 10),
        flagMass = m, flagRestDistance = fl (12 / 100)\<rparr>) = Fin 10"
    by (simp add: buildCloth_def fl_literals div_12_rd f2)
  have nx: "(argXSegments (buildCloth options) = NaN)
     = (js_div (flagWidth options) (flagRestDistance options) = NaN)"
    unfolding x by (rule clamp_NaN)
  have ny: "(argYSegments (buildCloth options) = NaN)
     = (js_div (flagHeight options) (flagRestDistance options) = NaN)"
    unfolding y by (rule clamp_NaN)
  have lx: "argXSegments (buildCloth options) \<noteq> NaN \<longrightarrow>
        js_less_eq (Fin 1) (argXSegments (buildCloth options))"
    unfolding nx unfolding x using clamp_at_least_1 by blast
  have ly: "argYSegments (buildCloth options) \<noteq> NaN \<longrightarrow>
        js_less_eq (Fin 1) (argYSegments (buildCloth options))"
    unfolding ny unfolding y using clamp_at_least_1 by blast
  from x y nx ny lx ly ex ey show ?thesis by blast
qed

lemma Flag_defaults_values:
  "Flag_defaults =
     \<lparr>flagWidth = fl (18 / 10), flagHeight = fl (12 / 10), flagMass = fl (11 / 100),
      flagRestDistance = fl (12 / 100)\<rparr>"
  by (simp add: Flag_defaults_def fl_literals div_12_10)

text \<open>
  An instance: the defaults of \<^verbatim>\<open>Flag\<close>, width 1.8, height 1.2 and rest distance
  \<^verbatim>\<open>1.2 / 10\<close>, give 15 by 10 segments, hence a grid of 16 by 11 particles.
\<close>

theorem buildCloth_segments_witness:
  "argXSegments (buildCloth Flag_defaults) \<noteq> NaN
   \<and> argYSegments (buildCloth Flag_defaults) \<noteq> NaN
   \<and> js_less_eq (Fin 1) (argXSegments (buildCloth Flag_defaults))
   \<and> js_less_eq (Fin 1) (argYSegments (buildCloth Flag_defaults))
   \<and> argXSegments (buildCloth Flag_defaults) = Fin 15
   \<and> argYSegments (buildCloth Flag_defaults) = Fin 10
   \<and> (15 + 1) * (10 + 1) = (176 :: nat)"
proof -
  have x: "argXSegments (buildCloth Flag_defaults) = Fin 15"
    using buildCloth_segments [of Flag_defaults "fl (11 / 100)"]
    unfolding Flag_defaults_values by blast
  have y: "argYSegments (buildCloth Flag_defaults) = Fin 10"
    using buildCloth_segments [of Flag_defaults "fl (11 / 100)"]
    unfolding Flag_defaults_values by blast
  show ?thesis unfolding x y by simp
qed

text \<open>
  A rest distance of zero is neither rejected nor clamped: \<^verbatim>\<open>buildCloth\<close> divides by it
  and hands the segment counts \<open>Infinity\<close> to the constructor of the cloth, also when the
  flag is built by \<^verbatim>\<open>buildRectangularFlagFromMedia\<close> with the option
  \<^verbatim>\<open>restDistance: 0\<close>.
\<close>

theorem buildCloth_zero_restDistance_unchecked:
  "argXSegments (buildCloth \<lparr>flagWidth = fl (18 / 10), flagHeight = fl (12 / 10),
        flagMass = fl (11 / 100), flagRestDistance = Fin 0\<rparr>) = PInf
   \<and> argYSegments (buildCloth \<lparr>flagWidth = fl (18 / 10), flagHeight = fl (12 / 10),
        flagMass = fl (11 / 100), flagRestDistance = Fin 0\<rparr>) = PInf
   \<and> argRestDistance (buildCloth \<lparr>flagWidth = fl (18 / 10), flagHeight = fl (12 / 10),
        flagMass = fl (11 / 100), flagRestDistance = Fin 0\<rparr>) = Fin 0
   \<and> argXSegments (builtCloth (buildRectangularFlagFromMedia None
        (noOptions\<lparr>optRestDistance := Some (Fin 0)\<rparr>))) = PInf
   \<and> argYSegments (builtCloth (buildRectangularFlagFromMedia None
        (noOptions\<lparr>optRestDistance := Some (Fin 0)\<rparr>))) = PInf"
  by (simp add: buildCloth_def buildRectangularFlagFromMedia_def noOptions_def assignDefaults_def
      computeSize_def computeFlagArgs_def isVertical_def Flag_settings_def Flag_defaults_values
      sides_distinct fl_literals js_div_def signedInf_def)

text \<open>
  Claim C7, as the code has it. \<^verbatim>\<open>buildCloth\<close> clamps each segment count from below
  at 1 and passes the rest distance on unchecked. For finite width and height and a
  finite rest distance other than zero each count is an integer of at least 1, or
  \<open>Infinity\<close> when the quotient overflows. A rest distance of zero is neither rejected
  nor clamped: with the positive zero the count along a positive extent is \<open>Infinity\<close>
  and along an extent of zero it is NaN; with the negative zero the quotient of a
  positive extent is \<open>- Infinity\<close>, which the clamp turns into 1.
\<close>

theorem buildCloth_clamps_below:
  "(r \<noteq> 0 \<longrightarrow>
      (argXSegments (buildCloth \<lparr>flagWidth = Fin w, flagHeight = Fin h, flagMass = m,
          flagRestDistance = Fin r\<rparr>) = PInf
       \<or> (\<exists>n. 1 \<le> n \<and> argXSegments (buildCloth \<lparr>flagWidth = Fin w, flagHeight = Fin h,
          flagMass = m, flagRestDistance = Fin r\<rparr>) = Fin (of_int n)))
      \<and> (argYSegments (buildCloth \<lparr>flagWidth = Fin w, flagHeight = Fin h, flagMass = m,
          flagRestDistance = Fin r\<rparr>) = PInf
       \<or> (\<exists>n. 1 \<le> n \<and> argYSegments (buildCloth \<lparr>flagWidth = Fin w, flagHeight = Fin h,
          flagMass = m, flagRestDistance = Fin r\<rparr>) = Fin (of_int n))))
   \<and> (0 < w \<longrightarrow>
      argXSegments (buildCloth \<lparr>flagWidth = Fin w, flagHeight = Fin h, flagMass = m,
          flagRestDistance = Fin 0\<rparr>) = PInf)
   \<and> (0 < h \<longrightarrow>
      argYSegments (buildCloth \<lparr>flagWidth = Fin w, flagHeight = Fin h, flagMass = m,
          flagRestDistance = Fin 0\<rparr>) = PInf)
   \<and> (w = 0 \<longrightarrow>
      argXSegments (buildCloth \<lparr>flagWidth = Fin w, flagHeight = Fin h, flagMass = m,
          flagRestDistance = Fin 0\<rparr>) = NaN)
   \<and> (0 < w \<longrightarrow>
      argXSegments (buildCloth \<lparr>flagWidth = Fin w, flagHeight = Fin h, flagMass = m,
          flagRestDistance = NZero\<rparr>) = Fin 1)
   \<and> (pow2 1024 \<le> w / r \<and> w / r < pow2 1025 \<longrightarrow>
      argXSegments (buildCloth \<lparr>flagWidth = Fin w, flagHeight = Fin h, flagMass = m,
          flagRestDistance = Fin r\<rparr>) = PInf)
   \<and> argRestDistance (buildCloth options) = flagRestDistance options"
proof -
  have ov: "argXSegments (buildCloth \<lparr>flagWidth = Fin w, flagHeight = Fin h, flagMass = m,
          flagRestDistance = Fin r\<rparr>) = PInf"
    if "pow2 1024 \<le> w / r \<and> w / r < pow2 1025"
  proof -
    have "0 < w / r" using that pow2_pos[of 1024] by linarith
    then have "w \<noteq> 0" "r \<noteq> 0" by auto
    then have "js_div (Fin w) (Fin r) = fl (w / r)" by (simp add: js_div_def)
    moreover have "fl (w / r) = PInf" using that by (intro fl_overflow[of 1024]) simp_all
    ultimately show ?thesis by (simp add: buildCloth_def)
  qed
  have fin: "js_max (Fin 1) (js_round (js_div (Fin a) (Fin r))) = PInf
      \<or> (\<exists>n. 1 \<le> n \<and> js_max (Fin 1) (js_round (js_div (Fin a) (Fin r))) = Fin (of_int n))"
    if "r \<noteq> 0" for a
  proof (cases "a = 0")
    case True
    with that show ?thesis by (auto simp: js_div_def signedZero_def intro: exI[of _ 1])
  next
    case False
    with that have "js_div (Fin a) (Fin r) = fl (a / r)" by (simp add: js_div_def)
    then show ?thesis using clamp_fl[of "a / r"] by simp
  qed
  have rest: "(r \<noteq> 0 \<longrightarrow>
      (argXSegments (buildCloth \<lparr>flagWidth = Fin w, flagHeight = Fin h, flagMass = m,
          flagRestDistance = Fin r\<rparr>) = PInf
       \<or> (\<exists>n. 1 \<le> n \<and> argXSegments (buildCloth \<lparr>flagWidth = Fin w, flagHeight = Fin h,
          flagMass = m, flagRestDistance = Fin r\<rparr>) = Fin (of_int n)))
      \<and> (argYSegments (buildCloth \<lparr>flagWidth = Fin w, flagHeight = Fin h, flagMass = m,
          flagRestDistance = Fin r\<rparr>) = PInf
       \<or> (\<exists>n. 1 \<le> n \<and> argYSegments (buildCloth \<lparr>flagWidth = Fin w, flagHeight = Fin h,
          flagMass = m, flagRestDistance = Fin r\<rparr>) = Fin (of_int n))))
   \<and> (0 < w \<longrightarrow>
      argXSegments (buildCloth \<lparr>flagWidth = Fin w, flagHeight = Fin h, flagMass = m,
          flagRestDistance = Fin 0\<rparr>) = PInf)
   \<and> (0 < h \<longrightarrow>
      argYSegments (buildCloth \<lparr>flagWidth = Fin w, flagHeight = Fin h, flagMass = m,
          flagRestDistance = Fin 0\<rparr>) = PInf)
   \<and> (w = 0 \<longrightarrow>
      argXSegments (buildCloth \<lparr>flagWidth = Fin w, flagHeight = Fin h, flagMass = m,
          flagRestDistance = Fin 0\<rparr>) = NaN)
   \<and> (0 < w \<longrightarrow>
      argXSegments (buildCloth \<lparr>flagWidth = Fin w, flagHeight = Fin h, flagMass = m,
          flagRestDistance = NZero\<rparr>) = Fin 1)
   \<and> argRestDistance (buildCloth options) = flagRestDistance options"
    using fin[of w] fin[of h]
    by (simp add: buildCloth_def js_div_def signedInf_def)
  with ov show ?thesis by blast
qed

text \<open>
  An instance: a flag of a quarter of the rest distance has one segment; with the rest
  distance 0 it has \<open>Infinity\<close> segments, with the negative zero one segment; the width
  \<^verbatim>\<open>1e308\<close> with the rest distance 0.5 has \<open>Infinity\<close> segments.
\<close>

theorem buildCloth_clamps_below_witness:
  "(4 :: real) \<noteq> 0 \<and> (0 :: real) < 1
   \<and> argXSegments (buildCloth \<lparr>flagWidth = Fin 1, flagHeight = Fin 1, flagMass = Fin 1,
          flagRestDistance = Fin 4\<rparr>) = Fin 1
   \<and> argXSegments (buildCloth \<lparr>flagWidth = Fin 1, flagHeight = Fin 1, flagMass = Fin 1,
          flagRestDistance = Fin 0\<rparr>) = PInf
   \<and> argXSegments (buildCloth \<lparr>flagWidth = Fin 1, flagHeight = Fin 1, flagMass = Fin 1,
          flagRestDistance = NZero\<rparr>) = Fin 1
   \<and> argXSegments (buildCloth \<lparr>flagWidth = Fin 100000000000000001097906362944045541740492309677311846336810682903157585404911491537163328978494688899061249669721172515611590283743140088328307009198146046031271664502933027185697489699588559043338384466165001178426897626212945177628091195786707458122783970171784415105291802893207873272974885715430223118336, flagHeight = Fin 1, flagMass = Fin 1,
          flagRestDistance = Fin (1 / 2)\<rparr>) = PInf"
proof -
  have big: "pow2 1024 \<le> 100000000000000001097906362944045541740492309677311846336810682903157585404911491537163328978494688899061249669721172515611590283743140088328307009198146046031271664502933027185697489699588559043338384466165001178426897626212945177628091195786707458122783970171784415105291802893207873272974885715430223118336 / (1 / 2 :: real) \<and> 100000000000000001097906362944045541740492309677311846336810682903157585404911491537163328978494688899061249669721172515611590283743140088328307009198146046031271664502933027185697489699588559043338384466165001178426897626212945177628091195786707458122783970171784415105291802893207873272974885715430223118336 / (1 / 2 :: real) < pow2 1025"
    by (simp add: pow2_def)
  have o: "argXSegments (buildCloth \<lparr>flagWidth = Fin 100000000000000001097906362944045541740492309677311846336810682903157585404911491537163328978494688899061249669721172515611590283743140088328307009198146046031271664502933027185697489699588559043338384466165001178426897626212945177628091195786707458122783970171784415105291802893207873272974885715430223118336, flagHeight = Fin 1, flagMass = Fin 1,
          flagRestDistance = Fin (1 / 2)\<rparr>) = PInf"
    using big buildCloth_clamps_below [of "1 / 2" 100000000000000001097906362944045541740492309677311846336810682903157585404911491537163328978494688899061249669721172515611590283743140088328307009198146046031271664502933027185697489699588559043338384466165001178426897626212945177628091195786707458122783970171784415105291802893207873272974885715430223118336 1 "Fin 1" Flag_defaults] by blast
  have f: "\<lfloor>3 / 4 :: real\<rfloor> = 0" by (simp add: floor_eq_iff)
  have "argXSegments (buildCloth \<lparr>flagWidth = Fin 1, flagHeight = Fin 1, flagMass = Fin 1,
          flagRestDistance = Fin 4\<rparr>) = Fin 1"
    by (simp add: buildCloth_def div_1_4 f)
  then show ?thesis
    using o buildCloth_clamps_below [of 4 1 1 "Fin 1" Flag_defaults]
    by simp
qed


lemma computeSizeFromElement_cong:
  "width s = width s' \<Longrightarrow> height s = height s' \<Longrightarrow>
   computeSizeFromElement el s = computeSizeFromElement el s'"
  unfolding computeSizeFromElement_def by (simp add: Let_def cong: if_cong)

lemma computeSize_cong:
  "width s = width s' \<Longrightarrow> height s = height s' \<Longrightarrow> computeSize el s = computeSize el s'"
  unfolding computeSize_def
  by (cases el) (simp_all add: computeSizeFromElement_cong[of s s'])

lemma clothOf_eq:
  "clothOf el options =
     (let (w, h) = computeSize el (assignDefaults options);
          rd = (case optRestDistance options of None \<Rightarrow> flagRestDistance Flag_defaults | Some r \<Rightarrow> r);
          ms = (case optMass options of None \<Rightarrow> flagMass Flag_defaults | Some m \<Rightarrow> m);
          vert = (orientation (assignDefaults options) = Side_LEFT
                  \<or> orientation (assignDefaults options) = Side_RIGHT)
      in buildCloth \<lparr>flagWidth = (if vert then h else w), flagHeight = (if vert then w else h),
           flagMass = ms, flagRestDistance = rd\<rparr>)"
  by (simp add: clothOf_def buildRectangularFlagFromMedia_def computeFlagArgs_def Flag_settings_def
      isVertical_def assignDefaults_def Let_def split: prod.splits)

text \<open>
  Claim C4, as the code has it. The hoisting changes nothing of the cloth. The
  orientation does: for the orientations left and right \<^verbatim>\<open>computeFlagArgs\<close> exchanges
  width and height, so the cloth of a vertical flag has the segment counts of the
  horizontal one exchanged (and the same rest distance); two orientations that are both
  vertical, or both not, give the same cloth.
\<close>

theorem orientation_swaps_cloth:
  "builtCloth (buildRectangularFlagFromMedia el (options\<lparr>optHoisting := hs\<rparr>))
     = builtCloth (buildRectangularFlagFromMedia el options)
   \<and> (isVertical (assignDefaults (options\<lparr>optOrientation := s1\<rparr>))
        = isVertical (assignDefaults (options\<lparr>optOrientation := s2\<rparr>)) \<longrightarrow>
      builtCloth (buildRectangularFlagFromMedia el (options\<lparr>optOrientation := s1\<rparr>))
        = builtCloth (buildRectangularFlagFromMedia el (options\<lparr>optOrientation := s2\<rparr>)))
   \<and> (isVertical (assignDefaults (options\<lparr>optOrientation := s1\<rparr>))
        \<and> \<not> isVertical (assignDefaults (options\<lparr>optOrientation := s2\<rparr>)) \<longrightarrow>
      argXSegments (builtCloth (buildRectangularFlagFromMedia el (options\<lparr>optOrientation := s1\<rparr>)))
        = argYSegments (builtCloth (buildRectangularFlagFromMedia el (options\<lparr>optOrientation := s2\<rparr>)))
      \<and> argYSegments (builtCloth (buildRectangularFlagFromMedia el (options\<lparr>optOrientation := s1\<rparr>)))
        = argXSegments (builtCloth (buildRectangularFlagFromMedia el (options\<lparr>optOrientation := s2\<rparr>)))
      \<and> argRestDistance (builtCloth (buildRectangularFlagFromMedia el (options\<lparr>optOrientation := s1\<rparr>)))
        = argRestDistance (builtCloth (buildRectangularFlagFromMedia el (options\<lparr>optOrientation := s2\<rparr>))))"
proof -
  have cs: "computeSize el (assignDefaults (options\<lparr>optOrientation := s\<rparr>))
      = computeSize el (assignDefaults options)" for s
    by (rule computeSize_cong) (simp_all add: assignDefaults_def)
  have ch: "computeSize el (assignDefaults (options\<lparr>optHoisting := hs\<rparr>))
      = computeSize el (assignDefaults options)"
    by (rule computeSize_cong) (simp_all add: assignDefaults_def)
  have h: "clothOf el (options\<lparr>optHoisting := hs\<rparr>) = clothOf el options"
    by (simp add: clothOf_eq ch) (simp add: assignDefaults_def)
  obtain w h where wh: "computeSize el (assignDefaults options) = (w, h)"
    by (cases "computeSize el (assignDefaults options)")
  have o: "clothOf el (options\<lparr>optOrientation := s\<rparr>) =
      buildCloth \<lparr>flagWidth = (if isVertical (assignDefaults (options\<lparr>optOrientation := s\<rparr>)) then h else w),
                  flagHeight = (if isVertical (assignDefaults (options\<lparr>optOrientation := s\<rparr>)) then w else h),
                  flagMass = (case optMass options of None \<Rightarrow> flagMass Flag_defaults | Some m \<Rightarrow> m),
                  flagRestDistance = (case optRestDistance options of None \<Rightarrow> flagRestDistance Flag_defaults | Some r \<Rightarrow> r)\<rparr>" for s
    by (simp add: clothOf_eq cs wh isVertical_def)
  show ?thesis
    using h unfolding clothOf_def[symmetric] o
    by (simp add: buildCloth_def)
qed

lemma computeSize_image:
  "width st = Auto \<Longrightarrow> height st = Auto \<Longrightarrow>
   computeSize (Some image300x200) st
     = (Fin (8106479329266893 / 4503599627370496), Fin (5404319552844595 / 4503599627370496))"
  by (simp add: computeSize_def computeSizeFromElement_def image300x200_def
      Flag_defaults_values fl_literals maxSize_def
      mul_12_300 div_360_200 div_500_18 mul_18_1 mul_12_1)

lemma clothOf_image:
  "clothOf (Some image300x200) (noOptions\<lparr>optOrientation := Some side\<rparr>) =
     (if side = Side_LEFT \<or> side = Side_RIGHT
      then Cloth (Fin 10) (Fin 15) (fl (12 / 100))
             (js_mul (js_mul (fl (11 / 100)) (fl (12 / 10))) (fl (18 / 10)))
      else Cloth (Fin 15) (Fin 10) (fl (12 / 100))
             (js_mul (js_mul (fl (11 / 100)) (fl (18 / 10))) (fl (12 / 10))))"
proof -
  have f1: "\<lfloor>8444249301319681 / 562949953421312 + 1 / 2 :: real\<rfloor> = 15"
    by (simp add: floor_eq_iff)
  have f2: "\<lfloor>10 + 1 / 2 :: real\<rfloor> = 10"
    by (simp add: floor_eq_iff)
  show ?thesis
    by (simp add: clothOf_eq computeSize_image noOptions_def assignDefaults_def buildCloth_def
        Flag_defaults_values fl_literals div_18_rd div_12_rd f1 f2)
qed

text \<open>
  The same image and options with orientation top and with orientation left: 15 by 10
  segments against 10 by 15. The cloth is not the same for both orientations.
\<close>

theorem orientation_changes_cloth:
  "argXSegments (builtCloth (buildRectangularFlagFromMedia (Some image300x200)
        (noOptions\<lparr>optOrientation := Some Side_TOP\<rparr>))) = Fin 15
   \<and> argYSegments (builtCloth (buildRectangularFlagFromMedia (Some image300x200)
        (noOptions\<lparr>optOrientation := Some Side_TOP\<rparr>))) = Fin 10
   \<and> argXSegments (builtCloth (buildRectangularFlagFromMedia (Some image300x200)
        (noOptions\<lparr>optOrientation := Some Side_LEFT\<rparr>))) = Fin 10
   \<and> argYSegments (builtCloth (buildRectangularFlagFromMedia (Some image300x200)
        (noOptions\<lparr>optOrientation := Some Side_LEFT\<rparr>))) = Fin 15"
  using clothOf_image[of Side_TOP] clothOf_image[of Side_LEFT]
  by (simp add: clothOf_def sides_distinct)

text \<open>An instance: orientation right against orientation bottom.\<close>

theorem orientation_swaps_cloth_witness:
  "isVertical (assignDefaults (noOptions\<lparr>optOrientation := Some Side_RIGHT\<rparr>))
   \<and> \<not> isVertical (assignDefaults (noOptions\<lparr>optOrientation := Some Side_BOTTOM\<rparr>))
   \<and> argXSegments (builtCloth (buildRectangularFlagFromMedia (Some image300x200)
        (noOptions\<lparr>optOrientation := Some Side_RIGHT\<rparr>))) = Fin 10
   \<and> argYSegments (builtCloth (buildRectangularFlagFromMedia (Some image300x200)
        (noOptions\<lparr>optOrientation := Some Side_RIGHT\<rparr>))) = Fin 15
   \<and> argXSegments (builtCloth (buildRectangularFlagFromMedia (Some image300x200)
        (noOptions\<lparr>optOrientation := Some Side_BOTTOM\<rparr>))) = Fin 15
   \<and> argYSegments (builtCloth (buildRectangularFlagFromMedia (Some image300x200)
        (noOptions\<lparr>optOrientation := Some Side_BOTTOM\<rparr>))) = Fin 10"
proof -
  have b: "argXSegments (builtCloth (buildRectangularFlagFromMedia (Some image300x200)
        (noOptions\<lparr>optOrientation := Some Side_BOTTOM\<rparr>))) = Fin 15"
    "argYSegments (builtCloth (buildRectangularFlagFromMedia (Some image300x200)
        (noOptions\<lparr>optOrientation := Some Side_BOTTOM\<rparr>))) = Fin 10"
    using clothOf_image[of Side_BOTTOM] by (simp_all add: clothOf_def sides_distinct)
  have v: "isVertical (assignDefaults (noOptions\<lparr>optOrientation := Some Side_RIGHT\<rparr>))"
    "\<not> isVertical (assignDefaults (noOptions\<lparr>optOrientation := Some Side_BOTTOM\<rparr>))"
    by (simp_all add: isVertical_def assignDefaults_def sides_distinct)
  show ?thesis
    using b v orientation_swaps_cloth [where el = "Some image300x200" and options = noOptions
        and hs = None and ?s1.0 = "Some Side_RIGHT" and ?s2.0 = "Some Side_BOTTOM"]
    by simp
qed

end
